theory Spec2Isabelle
  imports Complex_Main "HOL-Library.Word"
begin

section \<open>JavaScript values used by the handlers\<close>

text \<open>
  A JavaScript string is modelled as a \<^typ>\<open>string\<close>: one \<^typ>\<open>char\<close> per code unit
  (code units 0..255). The regular expressions of the sources carry no \<open>u\<close> flag, so they
  work code unit by code unit, and every class they use is a class of ASCII characters.

  The numbers the handlers build come from \<open>parseInt\<close>: an integer or \<open>NaN\<close>. A number is
  a \<open>jsnum\<close>; the model keeps the exact integer where JavaScript rounds to a double above
  \<open>2^53\<close> (rounding is monotone, so comparisons with the small bounds of the sources are
  the same), and \<open>-0\<close> is \<open>Num 0\<close> (falsy, below 1, printed \<open>0\<close>, as in JavaScript).
\<close>

datatype jsnum = NaN | Num int

text \<open>The relational operators: every comparison with \<open>NaN\<close> is false.\<close>

fun js_lt :: "jsnum \<Rightarrow> jsnum \<Rightarrow> bool" where
  "js_lt (Num a) (Num b) = (a < b)"
| "js_lt _ _ = False"

fun js_gt :: "jsnum \<Rightarrow> jsnum \<Rightarrow> bool" where
  "js_gt (Num a) (Num b) = (a > b)"
| "js_gt _ _ = False"

fun js_ge :: "jsnum \<Rightarrow> jsnum \<Rightarrow> bool" where
  "js_ge (Num a) (Num b) = (a \<ge> b)"
| "js_ge _ _ = False"

fun js_le :: "jsnum \<Rightarrow> jsnum \<Rightarrow> bool" where
  "js_le (Num a) (Num b) = (a \<le> b)"
| "js_le _ _ = False"

text \<open>Truthiness of a number (\<open>0\<close> and \<open>NaN\<close> are falsy) and of a string (\<open>''\<close> is falsy).\<close>

fun truthy_num :: "jsnum \<Rightarrow> bool" where
  "truthy_num NaN = False"
| "truthy_num (Num n) = (n \<noteq> 0)"

definition truthy_str :: "string \<Rightarrow> bool" where
  "truthy_str s = (s \<noteq> [])"

text \<open>\<open>Math.min\<close> of two numbers: \<open>NaN\<close> if either is.\<close>

fun Math_min :: "jsnum \<Rightarrow> jsnum \<Rightarrow> jsnum" where
  "Math_min (Num a) (Num b) = Num (min a b)"
| "Math_min _ _ = NaN"

subsection \<open>Number to string\<close>

definition digit_char :: "int \<Rightarrow> char" where
  "digit_char d = ''0123456789'' ! nat (d mod 10)"

function digits_of :: "int \<Rightarrow> string" where
  "digits_of n = (if n < 10 then [digit_char n] else digits_of (n div 10) @ [digit_char (n mod 10)])"
  by pat_completeness auto
termination
  by (relation "measure nat") auto

declare digits_of.simps [simp del]

text \<open>
  \<open>String(n)\<close>, as template literals and \<open>Array.prototype.join\<close> apply it: decimal digits
  with a leading minus sign (JavaScript switches to exponent notation from \<open>10^21\<close> on).
\<close>

fun num_to_string :: "jsnum \<Rightarrow> string" where
  "num_to_string NaN = ''NaN''"
| "num_to_string (Num n) = (if n < 0 then CHR ''-'' # digits_of (- n) else digits_of n)"

subsection \<open>\<open>parseInt\<close> with no radix argument\<close>

definition is_white_space :: "char \<Rightarrow> bool" where
  "is_white_space c = (c \<in> set [CHR 0x09, CHR 0x0A, CHR 0x0B, CHR 0x0C, CHR 0x0D, CHR 0x20, CHR 0xA0])"

definition digit_value :: "int \<Rightarrow> char \<Rightarrow> int option" where
  "digit_value radix c =
     (case map_of (zip ''0123456789abcdef'' [0, 1, 2, 3, 4, 5, 6, 7, 8, 9, 10, 11, 12, 13, 14, 15]
                   @ zip ''ABCDEF'' [10, 11, 12, 13, 14, 15]) c of
        None \<Rightarrow> None
      | Some v \<Rightarrow> if v < radix then Some v else None)"

definition strip_sign :: "string \<Rightarrow> bool \<times> string" where
  "strip_sign s =
     (case s of
        [] \<Rightarrow> (False, [])
      | c # r \<Rightarrow> if c = CHR ''-'' then (True, r) else if c = CHR ''+'' then (False, r) else (False, s))"

definition strip_radix :: "string \<Rightarrow> int \<times> string" where
  "strip_radix s = (if take 2 s = ''0x'' \<or> take 2 s = ''0X'' then (16, drop 2 s) else (10, s))"

definition parseInt :: "string \<Rightarrow> jsnum" where
  "parseInt s =
     (let (neg, s2) = strip_sign (dropWhile is_white_space s);
          (radix, s3) = strip_radix s2;
          z = takeWhile (\<lambda>c. digit_value radix c \<noteq> None) s3;
          v = foldl (\<lambda>a c. a * radix + the (digit_value radix c)) 0 z
      in if z = [] then NaN else Num (if neg then - v else v))"

subsection \<open>String helpers\<close>

definition startsWith :: "string \<Rightarrow> string \<Rightarrow> bool" where
  "startsWith s p = (take (length p) s = p)"

fun str_includes :: "string \<Rightarrow> string \<Rightarrow> bool" where
  "str_includes [] p = (p = [])"
| "str_includes (c # cs) p = (startsWith (c # cs) p \<or> str_includes cs p)"

text \<open>\<open>parts.join(sep)\<close>\<close>

fun join :: "string \<Rightarrow> string list \<Rightarrow> string" where
  "join sep [] = []"
| "join sep [x] = x"
| "join sep (x # y # ys) = x @ sep @ join sep (y # ys)"

section \<open>Files and thrown values\<close>

text \<open>A thrown value, by the string \<open>String(error)\<close> gives (an \<open>Error\<close> prints as \<open>Error: message\<close>).\<close>

datatype js_error = Thrown string

type_synonym bytes = "8 word list"

text \<open>
  A \<open>File\<close>: its name, the size and MIME type it reports, its content, and for which ranges
  \<open>file.slice(a, b).arrayBuffer()\<close> rejects (an I/O error while reading).
\<close>

record File =
  file_name :: string
  file_size :: nat
  file_type :: string
  file_bytes :: bytes
  file_read_fails :: "nat \<Rightarrow> nat \<Rightarrow> bool"

definition slice_arrayBuffer :: "File \<Rightarrow> nat \<Rightarrow> nat \<Rightarrow> js_error + bytes" where
  "slice_arrayBuffer f a b =
     (if file_read_fails f a b then Inl (Thrown ''Error: read failed'')
      else Inr (take (b - a) (drop a (file_bytes f))))"

text \<open>\<open>bytes[i]\<close> on a \<open>Uint8Array\<close>: \<open>undefined\<close> (here \<open>None\<close>) past the end.\<close>

definition byte_at :: "bytes \<Rightarrow> nat \<Rightarrow> 8 word option" where
  "byte_at bs i = (if i < length bs then Some (bs ! i) else None)"

section \<open>Validation utilities: \<open>sanitizeFilename\<close> on strings of 8-bit code units\<close>

definition lower_letters :: string where
  "lower_letters = ''abcdefghijklmnopqrstuvwxyz''"

definition upper_letters :: string where
  "upper_letters = ''ABCDEFGHIJKLMNOPQRSTUVWXYZ''"

definition decimal_digits :: string where
  "decimal_digits = ''0123456789''"

text \<open>
  \<open>sanitizeFilename\<close> as the upload handler applies it to a file name of this model (code
  units below 256). It lowercases after the replacement, so \<open>toLowerCase\<close> only meets the
  characters of \<open>[a-zA-Z0-9._-]\<close>; \<open>lower_char\<close> is \<open>toLowerCase\<close> on those. The
  function on all UTF-16 strings follows in the next section.
\<close>

definition lower_char :: "char \<Rightarrow> char" where
  "lower_char c = (case map_of (zip upper_letters lower_letters) c of Some d \<Rightarrow> d | None \<Rightarrow> c)"

definition toLowerCase :: "string \<Rightarrow> string" where
  "toLowerCase s = map lower_char s"

text \<open>\<open>s.replace(/[^a-zA-Z0-9.-]/g, '_')\<close>\<close>

definition filename_char :: "char \<Rightarrow> bool" where
  "filename_char c = (c \<in> set (lower_letters @ upper_letters @ decimal_digits @ ''.-''))"

definition replace_unsafe :: "string \<Rightarrow> string" where
  "replace_unsafe s = map (\<lambda>c. if filename_char c then c else CHR ''_'') s"

text \<open>
  \<open>s.replace(/_{2,}/g, '_')\<close>: scanning from the left, a maximal run of two or more
  underscores is replaced by one underscore and the scan goes on after the run; any other
  character is copied.
\<close>

function collapse_underscores :: "string \<Rightarrow> string" where
  "collapse_underscores [] = []"
| "collapse_underscores (c # cs) =
     (if c = CHR ''_'' \<and> takeWhile (\<lambda>d. d = CHR ''_'') cs \<noteq> []
      then CHR ''_'' # collapse_underscores (dropWhile (\<lambda>d. d = CHR ''_'') cs)
      else c # collapse_underscores cs)"
  by pat_completeness auto
termination
  by (relation "measure length") (auto simp: length_dropWhile_le less_Suc_eq_le)

definition sanitizeFilename :: "string \<Rightarrow> string" where
  "sanitizeFilename filename = toLowerCase (collapse_underscores (replace_unsafe filename))"

section \<open>Validation utilities: \<open>sanitizeFilename\<close> on UTF-16 strings\<close>

text \<open>
  A JavaScript string is a sequence of UTF-16 code units, numbers from 0 to 65535. The two
  regular expressions of \<open>sanitizeFilename\<close> carry no \<open>u\<close> flag and work code unit by code
  unit. \<open>utf16\<close> gives the code units of a string of this development.
\<close>

type_synonym code_unit = int

definition utf16 :: "string \<Rightarrow> code_unit list" where
  "utf16 s = map of_char s"

definition LOW_LINE :: code_unit where
  "LOW_LINE = 0x5F"

text \<open>The class \<open>[a-zA-Z0-9.-]\<close> of the first regular expression.\<close>

definition name_unit :: "code_unit \<Rightarrow> bool" where
  "name_unit u =
     ((0x61 \<le> u \<and> u \<le> 0x7A) \<or> (0x41 \<le> u \<and> u \<le> 0x5A) \<or> (0x30 \<le> u \<and> u \<le> 0x39)
      \<or> u = 0x2E \<or> u = 0x2D)"

text \<open>\<open>s.replace(/[^a-zA-Z0-9.-]/g, '_')\<close>\<close>

definition replace_unsafe_utf16 :: "code_unit list \<Rightarrow> code_unit list" where
  "replace_unsafe_utf16 s = map (\<lambda>u. if name_unit u then u else LOW_LINE) s"

text \<open>
  \<open>s.replace(/_{2,}/g, '_')\<close>: scanning from the left, a maximal run of two or more
  underscores is replaced by one underscore and the scan goes on after the run; any other
  code unit is copied.
\<close>

function collapse_underscores_utf16 :: "code_unit list \<Rightarrow> code_unit list" where
  "collapse_underscores_utf16 [] = []"
| "collapse_underscores_utf16 (u # us) =
     (if u = LOW_LINE \<and> takeWhile (\<lambda>d. d = LOW_LINE) us \<noteq> []
      then LOW_LINE # collapse_underscores_utf16 (dropWhile (\<lambda>d. d = LOW_LINE) us)
      else u # collapse_underscores_utf16 us)"
  by pat_completeness auto
termination
  by (relation "measure length") (auto simp: length_dropWhile_le less_Suc_eq_le)

text \<open>
  \<open>String.prototype.toLowerCase\<close>, code unit by code unit. The ASCII capitals and the
  Latin-1 capitals (\<open>U+00C0\<close> to \<open>U+00DE\<close> without the multiplication sign \<open>U+00D7\<close>) move
  up by \<open>0x20\<close>; \<open>U+0130\<close> (capital I with dot above) becomes \<open>i\<close> followed by the combining
  dot \<open>U+0307\<close>; \<open>U+212A\<close> (the Kelvin sign) becomes \<open>k\<close>. These two are the only
  characters outside ASCII whose lower case has an ASCII code unit. Unicode has more
  capitals: each is outside ASCII and has a lower case outside ASCII with as many code
  units; the model leaves those code units as they are.
\<close>

definition latin1_capital :: "code_unit \<Rightarrow> bool" where
  "latin1_capital u = ((0xC0 \<le> u \<and> u \<le> 0xD6) \<or> (0xD8 \<le> u \<and> u \<le> 0xDE))"

definition ascii_capital :: "code_unit \<Rightarrow> bool" where
  "ascii_capital u = (0x41 \<le> u \<and> u \<le> 0x5A)"

definition lower_unit :: "code_unit \<Rightarrow> code_unit list" where
  "lower_unit u =
     (if ascii_capital u \<or> latin1_capital u then [u + 0x20]
      else if u = 0x0130 then [0x0069, 0x0307]
      else if u = 0x212A then [0x006B]
      else [u])"

definition toLowerCase_utf16 :: "code_unit list \<Rightarrow> code_unit list" where
  "toLowerCase_utf16 s = concat (map lower_unit s)"

definition sanitizeFilename_utf16 :: "code_unit list \<Rightarrow> code_unit list" where
  "sanitizeFilename_utf16 filename =
     toLowerCase_utf16 (collapse_underscores_utf16 (replace_unsafe_utf16 filename))"

text \<open>
  The wording of the specification, for comparison: the string is lowercased, then every
  character outside \<open>[a-z0-9.-]\<close> becomes an underscore, then every run of two or more
  underscores collapses to one. The collapse is written on its own here: an underscore
  that is followed by an underscore is dropped.
\<close>

definition lower_name_unit :: "code_unit \<Rightarrow> bool" where
  "lower_name_unit u =
     ((0x61 \<le> u \<and> u \<le> 0x7A) \<or> (0x30 \<le> u \<and> u \<le> 0x39) \<or> u = 0x2E \<or> u = 0x2D)"

fun collapse_runs :: "code_unit list \<Rightarrow> code_unit list" where
  "collapse_runs [] = []"
| "collapse_runs [u] = [u]"
| "collapse_runs (u # v # us) =
     (if u = LOW_LINE \<and> v = LOW_LINE then collapse_runs (v # us) else u # collapse_runs (v # us))"

text \<open>A string has a run of underscores when two neighbours are underscores.\<close>

fun underscore_run :: "code_unit list \<Rightarrow> bool" where
  "underscore_run (u # v # us) = ((u = LOW_LINE \<and> v = LOW_LINE) \<or> underscore_run (v # us))"
| "underscore_run _ = False"

definition sanitizeFilename_stated :: "code_unit list \<Rightarrow> code_unit list" where
  "sanitizeFilename_stated name =
     collapse_runs (map (\<lambda>u. if lower_name_unit u then u else LOW_LINE) (toLowerCase_utf16 name))"

text \<open>
  What the function does, in the same words with the order of the source: every code unit
  outside \<open>[a-zA-Z0-9.-]\<close> becomes an underscore, every run of two or more underscores
  collapses to one, and the ASCII capitals are lowercased.
\<close>

definition ascii_lower :: "code_unit \<Rightarrow> code_unit" where
  "ascii_lower u = (if ascii_capital u then u + 0x20 else u)"

definition sanitizeFilename_replace_first :: "code_unit list \<Rightarrow> code_unit list" where
  "sanitizeFilename_replace_first name =
     map ascii_lower (collapse_runs (map (\<lambda>u. if name_unit u then u else LOW_LINE) name))"

section \<open>Validation utilities: \<open>validateFile\<close> and \<open>validateFiles\<close>\<close>

record UploadConstraints =
  maxFileSize :: jsnum
  allowedTypes :: "string list"
  maxFiles :: jsnum

record validation =
  valid :: bool
  error :: "string option"

text \<open>\<open>isValidImageFile\<close>: the magic bytes; any error while reading gives \<open>false\<close>.\<close>

definition isValidImageFile :: "File \<Rightarrow> bool" where
  "isValidImageFile f =
     (case slice_arrayBuffer f 0 8 of
        Inl _ \<Rightarrow> False
      | Inr bs \<Rightarrow>
          if byte_at bs 0 = Some 0xff \<and> byte_at bs 1 = Some 0xd8 \<and> byte_at bs 2 = Some 0xff
          then True
          else if byte_at bs 0 = Some 0x89 \<and> byte_at bs 1 = Some 0x50 \<and> byte_at bs 2 = Some 0x4e
                  \<and> byte_at bs 3 = Some 0x47 \<and> byte_at bs 4 = Some 0x0d \<and> byte_at bs 5 = Some 0x0a
                  \<and> byte_at bs 6 = Some 0x1a \<and> byte_at bs 7 = Some 0x0a
          then True
          else if byte_at bs 0 = Some 0x52 \<and> byte_at bs 1 = Some 0x49 \<and> byte_at bs 2 = Some 0x46
                  \<and> byte_at bs 3 = Some 0x46
          then (case slice_arrayBuffer f 8 12 of
                  Inl _ \<Rightarrow> False
                | Inr ws \<Rightarrow>
                    if byte_at ws 0 = Some 0x57 \<and> byte_at ws 1 = Some 0x45 \<and> byte_at ws 2 = Some 0x42
                       \<and> byte_at ws 3 = Some 0x50
                    then True
                    else False)
          else False)"

text \<open>
  \<open>validateFile\<close>. \<open>formatBytes\<close> prints a size through floating-point logarithms and
  \<open>toFixed\<close>; it only words the size message, so the printing function is a parameter here.
\<close>

definition validateFile :: "(jsnum \<Rightarrow> string) \<Rightarrow> File \<Rightarrow> UploadConstraints \<Rightarrow> validation" where
  "validateFile formatBytes f constraints =
     (if js_gt (Num (int (file_size f))) (maxFileSize constraints)
      then \<lparr> valid = False,
             error = Some (''File size '' @ formatBytes (Num (int (file_size f)))
                           @ '' exceeds maximum allowed size of '' @ formatBytes (maxFileSize constraints)) \<rparr>
      else if file_type f \<notin> set (allowedTypes constraints)
      then \<lparr> valid = False,
             error = Some (''File type '' @ file_type f @ '' is not allowed. Allowed types: ''
                           @ join '', '' (allowedTypes constraints)) \<rparr>
      else if \<not> isValidImageFile f
      then \<lparr> valid = False, error = Some ''File does not appear to be a valid image'' \<rparr>
      else \<lparr> valid = True, error = None \<rparr>)"

text \<open>\<open>validateFiles\<close>: the count check comes first and marks every file.\<close>

definition validateFiles :: "(jsnum \<Rightarrow> string) \<Rightarrow> File list \<Rightarrow> UploadConstraints \<Rightarrow> (File \<times> validation) list" where
  "validateFiles formatBytes files constraints =
     (if js_gt (Num (int (length files))) (maxFiles constraints)
      then map (\<lambda>f. (f, \<lparr> valid = False,
                           error = Some (''Too many files selected. Maximum allowed: ''
                                         @ num_to_string (maxFiles constraints)) \<rparr>)) files
      else map (\<lambda>f. (f, validateFile formatBytes f constraints)) files)"

text \<open>
  \<open>generateUniqueFilename\<close>: \<open>Date.now()\<close> and the six characters cut from
  \<open>Math.random().toString(36)\<close> are inputs; the extension is what follows the last dot
  (the whole name when it has none).
\<close>

definition after_last_dot :: "string \<Rightarrow> string" where
  "after_last_dot s = rev (takeWhile (\<lambda>c. c \<noteq> CHR ''.'') (rev s))"

definition generateUniqueFilename :: "string \<Rightarrow> int \<Rightarrow> string \<Rightarrow> string" where
  "generateUniqueFilename originalName timestamp random =
     num_to_string (Num timestamp) @ ''-'' @ random @ ''.'' @ after_last_dot originalName"

definition DEFAULT_CONSTRAINTS :: UploadConstraints where
  "DEFAULT_CONSTRAINTS =
     \<lparr> maxFileSize = Num (10 * 1024 * 1024),
       allowedTypes = [''image/jpeg'', ''image/png'', ''image/webp''],
       maxFiles = Num 10 \<rparr>"

text \<open>
  The specification's wording of the magic-byte check, for comparison: the leading bytes
  can be read and are \<open>FF D8 FF\<close> (JPEG), or \<open>89 50 4E 47 0D 0A 1A 0A\<close> (PNG), or \<open>RIFF\<close>
  at offset 0 with \<open>WEBP\<close> at offset 8 (WebP, whose second read must succeed too).
\<close>

definition JPEG_MAGIC :: bytes where
  "JPEG_MAGIC = [0xff, 0xd8, 0xff]"

definition PNG_MAGIC :: bytes where
  "PNG_MAGIC = [0x89, 0x50, 0x4e, 0x47, 0x0d, 0x0a, 0x1a, 0x0a]"

definition RIFF_MAGIC :: bytes where
  "RIFF_MAGIC = [0x52, 0x49, 0x46, 0x46]"

definition WEBP_MAGIC :: bytes where
  "WEBP_MAGIC = [0x57, 0x45, 0x42, 0x50]"

definition magic_bytes_spec :: "File \<Rightarrow> bool" where
  "magic_bytes_spec f =
     (\<not> file_read_fails f 0 8 \<and>
      (take 3 (file_bytes f) = JPEG_MAGIC
       \<or> take 8 (file_bytes f) = PNG_MAGIC
       \<or> (take 4 (file_bytes f) = RIFF_MAGIC \<and> \<not> file_read_fails f 8 12
           \<and> take 4 (drop 8 (file_bytes f)) = WEBP_MAGIC)))"

definition not_an_image :: validation where
  "not_an_image = \<lparr> valid = False, error = Some ''File does not appear to be a valid image'' \<rparr>"

section \<open>Requests, responses and the error taxonomy\<close>

text \<open>
  A request, as far as the handlers read it: the method, the headers (a lookup by the name
  the source passes to \<open>headers.get\<close>), the route parameter \<open>params.key\<close>, the decoded
  query pairs behind \<open>url.searchParams\<close>, and what \<open>request.formData()\<close> followed by
  \<open>getAll('photos')\<close> gives: the files, or the error the parse raises.
\<close>

record request =
  req_method :: string
  req_header :: "string \<Rightarrow> string option"
  req_key :: "string option"
  req_query :: "(string \<times> string) list"
  req_form :: "js_error + File list"

definition searchParams_get :: "request \<Rightarrow> string \<Rightarrow> string option" where
  "searchParams_get req name = map_of (req_query req) name"

text \<open>\<open>x || d\<close> for a string that may be \<open>null\<close>: the default replaces \<open>null\<close> and the empty string.\<close>

definition str_or :: "string option \<Rightarrow> string \<Rightarrow> string" where
  "str_or x d = (case x of None \<Rightarrow> d | Some s \<Rightarrow> if truthy_str s then s else d)"

record PhotoMetadata =
  pm_key :: string
  pm_filename :: string
  pm_size :: nat
  pm_contentType :: string
  pm_uploadedAt :: string

record failed_upload =
  fu_filename :: string
  fu_error :: string

datatype body =
    NoBody
  | ErrorBody (err_message: string) (err_code: string) (err_status: nat) (err_details: "(string \<times> string) list")
  | UploadBody (up_success: bool) (up_photos: "PhotoMetadata list option") (up_errors: "failed_upload list option")
  | ImageBody bytes

record response =
  status :: nat
  headers :: "(string \<times> string) list"
  body :: body

text \<open>\<open>createErrorResponse(message, code = INTERNAL_ERROR, status = 500, details)\<close>\<close>

definition createErrorResponse :: "string \<Rightarrow> string option \<Rightarrow> nat option \<Rightarrow> (string \<times> string) list \<Rightarrow> response" where
  "createErrorResponse message code st details =
     (let c = (case code of None \<Rightarrow> ''INTERNAL_ERROR'' | Some c \<Rightarrow> c);
          s = (case st of None \<Rightarrow> 500 | Some s \<Rightarrow> s)
      in \<lparr> status = s,
           headers = [(''Content-Type'', ''application/json''), (''Cache-Control'', ''no-store'')],
           body = ErrorBody message c s details \<rparr>)"

definition createValidationError :: "string \<Rightarrow> string option \<Rightarrow> response" where
  "createValidationError message field =
     createErrorResponse message (Some ''VALIDATION_FAILED'') (Some 400)
       (case field of None \<Rightarrow> [] | Some f \<Rightarrow> if truthy_str f then [(''field'', f)] else [])"

definition createUnauthorizedError :: "string \<Rightarrow> response" where
  "createUnauthorizedError message = createErrorResponse message (Some ''UNAUTHORIZED'') (Some 401) []"

definition createNotFoundError :: "string option \<Rightarrow> response" where
  "createNotFoundError filename =
     (case filename of
        None \<Rightarrow> createErrorResponse ''Requested resource not found'' (Some ''FILE_NOT_FOUND'') (Some 404) []
      | Some f \<Rightarrow>
          if truthy_str f
          then createErrorResponse (''File '' @ [CHR 0x27] @ f @ [CHR 0x27] @ '' not found'')
                 (Some ''FILE_NOT_FOUND'') (Some 404) [(''filename'', f)]
          else createErrorResponse ''Requested resource not found'' (Some ''FILE_NOT_FOUND'') (Some 404) [])"

text \<open>\<open>createRateLimitError(message, retryAfter)\<close>: the header and the detail only for a truthy delay.\<close>

definition createRateLimitError :: "string \<Rightarrow> jsnum \<Rightarrow> response" where
  "createRateLimitError message retryAfter =
     \<lparr> status = 429,
       headers = [(''Content-Type'', ''application/json''), (''Cache-Control'', ''no-store'')]
                 @ (if truthy_num retryAfter then [(''Retry-After'', num_to_string retryAfter)] else []),
       body = ErrorBody message ''RATE_LIMITED'' 429
                (if truthy_num retryAfter then [(''retryAfter'', num_to_string retryAfter)] else []) \<rparr>"

text \<open>
  \<open>handleCORS(request, allowedOrigins)\<close>: a preflight (\<open>OPTIONS\<close>) is answered with 204, any
  other method passes through (\<open>null\<close>).
\<close>

definition handleCORS :: "request \<Rightarrow> string list \<Rightarrow> response option" where
  "handleCORS req allowedOrigins =
     (if req_method req = ''OPTIONS''
      then Some \<lparr> status = 204,
                  headers =
                    [(''Access-Control-Allow-Methods'', ''GET, POST, PUT, DELETE, OPTIONS''),
                     (''Access-Control-Allow-Headers'', ''Content-Type, Authorization, X-Upload-Token''),
                     (''Access-Control-Max-Age'', ''86400'')]
                    @ (let origin = req_header req ''Origin'' in
                       if ''*'' \<in> set allowedOrigins
                       then [(''Access-Control-Allow-Origin'', str_or origin ''*''),
                             (''Access-Control-Allow-Credentials'', ''true'')]
                       else (case origin of
                               None \<Rightarrow> []
                             | Some orig \<Rightarrow>
                                 if truthy_str orig \<and> orig \<in> set allowedOrigins
                                 then [(''Access-Control-Allow-Origin'', orig),
                                       (''Access-Control-Allow-Credentials'', ''true'')]
                                 else [])),
                  body = NoBody \<rparr>
      else None)"

definition EVENT_PREFIX :: string where
  "EVENT_PREFIX = ''25thAnniversary''"

section \<open>Calls to the external services\<close>

text \<open>
  A handler returns its response together with the calls it made, in order, to the object
  store, the edge cache, the image-processing adapter and the logs.
\<close>

datatype effect =
    BucketPut string string
  | BucketGet string
  | CacheMatch string
  | CachePut string response
  | AdapterCall string
  | LogError string
  | LogAnalytics string

section \<open>Image processing adapter: options, URLs and cache keys\<close>

record ImageProcessingOptions =
  width :: "jsnum option"
  height :: "jsnum option"
  quality :: "jsnum option"
  format :: "string option"
  watermark :: "bool option"

text \<open>\<open>generateThumbnailUrl(imageKey, width = 300, quality = 85)\<close>\<close>

definition generateThumbnailUrl :: "string \<Rightarrow> jsnum option \<Rightarrow> jsnum option \<Rightarrow> string" where
  "generateThumbnailUrl imageKey w q =
     ''/cdn-cgi/image/width='' @ num_to_string (case w of None \<Rightarrow> Num 300 | Some v \<Rightarrow> v)
       @ '',quality='' @ num_to_string (case q of None \<Rightarrow> Num 85 | Some v \<Rightarrow> v)
       @ ''/api/images/'' @ imageKey"

record ResponsiveUrls =
  thumbnail :: string
  small :: string
  medium :: string
  large :: string
  original :: string

definition generateResponsiveUrls :: "string \<Rightarrow> ResponsiveUrls" where
  "generateResponsiveUrls imageKey =
     (let baseUrl = ''/api/images/'' @ imageKey
      in \<lparr> thumbnail = ''/cdn-cgi/image/width=150,quality=80'' @ baseUrl,
           small = ''/cdn-cgi/image/width=400,quality=85'' @ baseUrl,
           medium = ''/cdn-cgi/image/width=800,quality=90'' @ baseUrl,
           large = ''/cdn-cgi/image/width=1200,quality=95'' @ baseUrl,
           original = baseUrl \<rparr>)"

text \<open>\<open>options.width || 'auto'\<close> and \<open>options.format || 'auto'\<close>, as \<open>join\<close> prints them.\<close>

definition num_or_auto :: "jsnum option \<Rightarrow> string" where
  "num_or_auto x = (case x of None \<Rightarrow> ''auto'' | Some v \<Rightarrow> if truthy_num v then num_to_string v else ''auto'')"

definition option_parts :: "ImageProcessingOptions \<Rightarrow> string list" where
  "option_parts options =
     [num_or_auto (width options),
      num_or_auto (height options),
      num_or_auto (quality options),
      str_or (format options) ''auto'',
      if watermark options = Some True then ''wm'' else ''no-wm'']"

text \<open>The adapter's \<open>createCacheKey\<close> (image-processing utilities).\<close>

definition createCacheKey_adapter :: "string \<Rightarrow> ImageProcessingOptions \<Rightarrow> string" where
  "createCacheKey_adapter imageKey options = join ''_'' (imageKey # option_parts options)"

text \<open>
  The serving handler's \<open>createCacheKey\<close>: the key goes through
  \<open>replace(/[^\w.-]/g, '_')\<close> first (\<open>\w\<close> is \<open>[A-Za-z0-9_]\<close>).
\<close>

definition word_dot_hyphen :: "char \<Rightarrow> bool" where
  "word_dot_hyphen c = (c \<in> set (lower_letters @ upper_letters @ decimal_digits @ ''_.-''))"

definition sanitize_key :: "string \<Rightarrow> string" where
  "sanitize_key k = map (\<lambda>c. if word_dot_hyphen c then c else CHR ''_'') k"

definition createCacheKey_handler :: "string \<Rightarrow> ImageProcessingOptions \<Rightarrow> string" where
  "createCacheKey_handler imageKey options = join ''_'' (sanitize_key imageKey # option_parts options)"

text \<open>\<open>validateProcessingOptions\<close>: the first violated field decides the message.\<close>

definition validateProcessingOptions :: "ImageProcessingOptions \<Rightarrow> string option" where
  "validateProcessingOptions options =
     (if (case width options of None \<Rightarrow> False | Some w \<Rightarrow> js_lt w (Num 1) \<or> js_gt w (Num 4000))
      then Some ''Width must be between 1 and 4000 pixels''
      else if (case height options of None \<Rightarrow> False | Some h \<Rightarrow> js_lt h (Num 1) \<or> js_gt h (Num 4000))
      then Some ''Height must be between 1 and 4000 pixels''
      else if (case quality options of None \<Rightarrow> False | Some q \<Rightarrow> js_lt q (Num 1) \<or> js_gt q (Num 100))
      then Some ''Quality must be between 1 and 100''
      else if (case format options of None \<Rightarrow> False
               | Some f \<Rightarrow> truthy_str f \<and> f \<notin> set [''jpeg'', ''png'', ''webp''])
      then Some ''Format must be jpeg, png, or webp''
      else None)"

text \<open>\<open>getOptimalFormat\<close>: \<open>webp\<close> when the \<open>Accept\<close> header mentions it, else \<open>jpeg\<close>.\<close>

definition getOptimalFormat :: "request \<Rightarrow> string" where
  "getOptimalFormat req =
     (if str_includes (str_or (req_header req ''Accept'') []) ''image/webp'' then ''webp'' else ''jpeg'')"

section \<open>Image processing adapter: the transform service\<close>

text \<open>
  The image-transform binding (\<open>env.IMAGES\<close>) and the branding-asset store
  (\<open>env.BRANDING_ASSETS\<close>) are external services. The binding is a record of its calls over
  an arbitrary type \<open>'p\<close> of processor objects; every call may throw. The last call of a
  pipeline, \<open>processor.output(o).response()\<close>, may throw at once, or give a promise that
  rejects later, or one that resolves to a response.
\<close>

record transform_options =
  t_width :: "jsnum option"
  t_height :: "jsnum option"
  t_quality :: "jsnum option"

record output_options =
  o_format :: "string option"
  o_quality :: "jsnum option"

datatype anchor = TopLeft int int | BottomRight int int

record draw_options =
  d_anchor :: anchor
  d_width :: int
  d_height :: int
  d_opacity_percent :: nat
  d_fit :: string

record image_response =
  ir_ok :: bool
  ir_content_type :: "string option"
  ir_content_length :: "string option"
  ir_body :: bytes

datatype 'a outcome = Throws js_error | Rejects js_error | Resolves 'a

record 'p images_api =
  img_input :: "bytes \<Rightarrow> js_error + 'p"
  img_transform :: "'p \<Rightarrow> transform_options \<Rightarrow> js_error + 'p"
  img_draw :: "'p \<Rightarrow> 'p \<Rightarrow> draw_options \<Rightarrow> js_error + 'p"
  img_respond :: "'p \<Rightarrow> output_options \<Rightarrow> image_response outcome"

text \<open>\<open>BRANDING_ASSETS.get(name, 'arrayBuffer')\<close>: the blob, \<open>null\<close> for a missing asset, or an error.\<close>

type_synonym kv_store = "string \<Rightarrow> js_error + bytes option"

record 'p adapter_env =
  IMAGES :: "'p images_api option"
  BRANDING_ASSETS :: "kv_store option"

text \<open>\<open>x || undefined\<close> on a number: a falsy number is left out of an options object.\<close>

definition truthy_only :: "jsnum option \<Rightarrow> jsnum option" where
  "truthy_only x = (case x of None \<Rightarrow> None | Some v \<Rightarrow> if truthy_num v then Some v else None)"

definition bbff_overlay :: draw_options where
  "bbff_overlay = \<lparr> d_anchor = TopLeft 20 20, d_width = 100, d_height = 100,
                    d_opacity_percent = 80, d_fit = ''contain'' \<rparr>"

definition hmb_overlay :: draw_options where
  "hmb_overlay = \<lparr> d_anchor = BottomRight 20 20, d_width = 100, d_height = 100,
                   d_opacity_percent = 80, d_fit = ''contain'' \<rparr>"

text \<open>
  One logo of \<open>applyWatermarks\<close>: fetch the asset; when it is there, wrap it with
  \<open>IMAGES.input\<close> and draw it. The result is the new value of the variable \<open>processor\<close>,
  or the error thrown on the way (the variable is then unchanged).
\<close>

definition draw_logo :: "'p images_api \<Rightarrow> kv_store \<Rightarrow> string \<Rightarrow> draw_options \<Rightarrow> 'p \<Rightarrow> js_error + 'p" where
  "draw_logo api kv name opts processor =
     (case kv name of
        Inl e \<Rightarrow> Inl e
      | Inr None \<Rightarrow> Inr processor
      | Inr (Some logoData) \<Rightarrow>
          (case img_input api logoData of
             Inl e \<Rightarrow> Inl e
           | Inr overlay \<Rightarrow> img_draw api processor overlay opts))"

text \<open>
  The body of the \<open>try\<close> block of \<open>applyWatermarks\<close>: the value of \<open>processor\<close> when the
  block is left, and how it is left (\<open>Inr\<close>: by \<open>return processor\<close>; \<open>Inl\<close>: by an exception).
\<close>

definition watermark_body :: "'p images_api \<Rightarrow> kv_store \<Rightarrow> 'p \<Rightarrow> 'p \<times> (js_error + 'p)" where
  "watermark_body api kv processor =
     (case draw_logo api kv ''bbff-logo.png'' bbff_overlay processor of
        Inl e \<Rightarrow> (processor, Inl e)
      | Inr p1 \<Rightarrow>
          (case draw_logo api kv ''hmb-logo.png'' hmb_overlay p1 of
             Inl e \<Rightarrow> (p1, Inl e)
           | Inr p2 \<Rightarrow> (p2, Inr p2)))"

text \<open>\<open>applyWatermarks\<close>: the \<open>catch\<close> block returns the variable \<open>processor\<close> as it stands.\<close>

definition applyWatermarks :: "'p images_api \<Rightarrow> kv_store \<Rightarrow> 'p \<Rightarrow> js_error + 'p" where
  "applyWatermarks api kv processor =
     (case watermark_body api kv processor of
        (p, Inl e) \<Rightarrow> Inr p
      | (p, Inr r) \<Rightarrow> Inr r)"

definition processing_failed :: js_error where
  "processing_failed = Thrown ''Error: Image processing failed''"

definition transform_options_of :: "ImageProcessingOptions \<Rightarrow> transform_options" where
  "transform_options_of options =
     \<lparr> t_width = truthy_only (width options), t_height = truthy_only (height options),
       t_quality = truthy_only (quality options) \<rparr>"

definition output_options_of :: "ImageProcessingOptions \<Rightarrow> output_options" where
  "output_options_of options =
     \<lparr> o_format = (case format options of None \<Rightarrow> None | Some f \<Rightarrow> if truthy_str f then Some f else None),
       o_quality = truthy_only (quality options) \<rparr>"

text \<open>The resize step of \<open>processImage\<close>: only when a width or a height is truthy.\<close>

definition resize_step :: "'p images_api \<Rightarrow> ImageProcessingOptions \<Rightarrow> 'p \<Rightarrow> js_error + 'p" where
  "resize_step api options processor =
     (if truthy_only (width options) \<noteq> None \<or> truthy_only (height options) \<noteq> None
      then img_transform api processor (transform_options_of options)
      else Inr processor)"

text \<open>The watermark step of \<open>processImage\<close>: only when asked for and the asset store is bound.\<close>

definition watermark_step :: "'p adapter_env \<Rightarrow> 'p images_api \<Rightarrow> ImageProcessingOptions \<Rightarrow> 'p \<Rightarrow> js_error + 'p" where
  "watermark_step env api options processor =
     (case BRANDING_ASSETS env of
        None \<Rightarrow> Inr processor
      | Some kv \<Rightarrow> if watermark options = Some True then applyWatermarks api kv processor else Inr processor)"

text \<open>
  \<open>processImage\<close>: without the binding it throws at once; an exception inside its \<open>try\<close>
  block is rethrown as \<open>Image processing failed\<close>; the promise of the final \<open>response()\<close> is
  returned without \<open>await\<close>, so its rejection passes through as it is.
\<close>

definition processImage :: "bytes \<Rightarrow> ImageProcessingOptions \<Rightarrow> 'p adapter_env \<Rightarrow> js_error + image_response" where
  "processImage imageData options env =
     (case IMAGES env of
        None \<Rightarrow> Inl (Thrown ''Error: Images binding not available'')
      | Some api \<Rightarrow>
          (case img_input api imageData of
             Inl e \<Rightarrow> Inl processing_failed
           | Inr p0 \<Rightarrow>
               (case resize_step api options p0 of
                  Inl e \<Rightarrow> Inl processing_failed
                | Inr p1 \<Rightarrow>
                    (case watermark_step env api options p1 of
                       Inl e \<Rightarrow> Inl processing_failed
                     | Inr p2 \<Rightarrow>
                         (case img_respond api p2 (output_options_of options) of
                            Throws e \<Rightarrow> Inl processing_failed
                          | Rejects e \<Rightarrow> Inl e
                          | Resolves r \<Rightarrow> Inr r)))))"

subsection \<open>\<open>optimizeForWeb\<close>\<close>

text \<open>One request of \<open>optimizeForWeb\<close>: the image as JPEG at a quality; every error propagates.\<close>

definition render_jpeg :: "'p images_api \<Rightarrow> bytes \<Rightarrow> int \<Rightarrow> js_error + image_response" where
  "render_jpeg api imageData q =
     (case img_input api imageData of
        Inl e \<Rightarrow> Inl e
      | Inr p \<Rightarrow>
          (case img_transform api p \<lparr> t_width = None, t_height = None, t_quality = Some (Num q) \<rparr> of
             Inl e \<Rightarrow> Inl e
           | Inr p' \<Rightarrow>
               (case img_respond api p' \<lparr> o_format = Some ''jpeg'', o_quality = None \<rparr> of
                  Throws e \<Rightarrow> Inl e
                | Rejects e \<Rightarrow> Inl e
                | Resolves r \<Rightarrow> Inr r)))"

text \<open>
  \<open>resultSize / 1024 <= targetSizeKB\<close>, with \<open>resultSize\<close> parsed from the
  \<open>content-length\<close> header (\<open>'0'\<close> when it is missing); false when either side is \<open>NaN\<close>.
\<close>

definition within_budget :: "image_response \<Rightarrow> jsnum \<Rightarrow> bool" where
  "within_budget result targetSizeKB =
     (case (parseInt (str_or (ir_content_length result) ''0''), targetSizeKB) of
        (Num resultSize, Num t) \<Rightarrow> real_of_int resultSize / 1024 \<le> real_of_int t
      | _ \<Rightarrow> False)"

text \<open>
  The \<open>while\<close> loop of \<open>optimizeForWeb\<close>, from the current quality and result. It also
  collects the qualities it requests, in order.
\<close>

function optimize_loop :: "'p images_api \<Rightarrow> bytes \<Rightarrow> jsnum \<Rightarrow> int \<Rightarrow> image_response \<Rightarrow> int list \<times> (js_error + image_response)" where
  "optimize_loop api imageData targetSizeKB q result =
     (if q \<ge> 20
      then if within_budget result targetSizeKB then ([], Inr result)
           else if q = 20 then ([], Inr result)
           else (let q1 = q - 10; q2 = (if q1 < 20 then 20 else q1)
                 in case render_jpeg api imageData q2 of
                      Inl e \<Rightarrow> ([q2], Inl e)
                    | Inr r \<Rightarrow> (let (qs, res) = optimize_loop api imageData targetSizeKB q2 r
                               in (q2 # qs, res)))
      else ([], Inr result))"
  by pat_completeness auto
termination
  by (relation "measure (\<lambda>(api, imageData, targetSizeKB, q, result). nat (q - 20))") auto

declare optimize_loop.simps [simp del]

text \<open>\<open>optimizeForWeb(imageData, targetSizeKB = 500, env)\<close>, with the qualities it requested.\<close>

definition optimizeForWeb :: "bytes \<Rightarrow> jsnum option \<Rightarrow> 'p adapter_env \<Rightarrow> int list \<times> (js_error + image_response)" where
  "optimizeForWeb imageData targetSizeKB env =
     (case IMAGES env of
        None \<Rightarrow> ([], Inl (Thrown ''Error: Images binding not available''))
      | Some api \<Rightarrow>
          (case render_jpeg api imageData 95 of
             Inl e \<Rightarrow> ([95], Inl e)
           | Inr r \<Rightarrow>
               (let (qs, res) = optimize_loop api imageData
                                  (case targetSizeKB of None \<Rightarrow> Num 500 | Some t \<Rightarrow> t) 95 r
                in (95 # qs, res))))"

text \<open>
  The specification's wording of the back-off, for comparison: the qualities
  \<open>95, 85, ..., 25, 20\<close> are requested in this order, up to and including the first one whose
  result is within budget, and all of them when none is.
\<close>

definition quality_schedule :: "int list" where
  "quality_schedule = [95, 85, 75, 65, 55, 45, 35, 25, 20]"

fun backoff_spec :: "(int \<Rightarrow> bool) \<Rightarrow> int list \<Rightarrow> int list" where
  "backoff_spec fits [] = []"
| "backoff_spec fits (q # qs) = (if fits q then [q] else q # backoff_spec fits qs)"

text \<open>The qualities the loop can still go down to from a quality \<open>q\<close>.\<close>

function qualities_below :: "int \<Rightarrow> int list" where
  "qualities_below q =
     (if q > 20 then (if q - 10 < 20 then 20 else q - 10) # qualities_below (if q - 10 < 20 then 20 else q - 10)
      else [])"
  by pat_completeness auto
termination
  by (relation "measure (\<lambda>q. nat (q - 20))") auto

declare qualities_below.simps [simp del]

section \<open>Photo listing handler, up to the object-store call\<close>

record list_options =
  lo_prefix :: string
  lo_limit :: jsnum
  lo_cursor :: "string option"

text \<open>The options \<open>onRequestGet\<close> builds from the query and passes to \<open>PHOTOS_BUCKET.list\<close>.\<close>

definition listOptions :: "request \<Rightarrow> list_options" where
  "listOptions req =
     (let limit = Math_min (parseInt (str_or (searchParams_get req ''limit'') ''50'')) (Num 100);
          cursor = (case searchParams_get req ''cursor'' of
                      None \<Rightarrow> None
                    | Some c \<Rightarrow> if truthy_str c then Some c else None)
      in \<lparr> lo_prefix = EVENT_PREFIX @ ''/'', lo_limit = limit, lo_cursor = cursor \<rparr>)"

text \<open>
  The listing handler as far as its call of the object store: it answers a preflight or a
  missing bucket itself, and otherwise calls \<open>list\<close> with \<open>listOptions\<close>. What it does with
  the listing (mapping, sorting, the JSON body) is not part of this development.
\<close>

datatype list_step = Responds response | CallsList list_options

definition onRequestGet_list :: "request \<Rightarrow> bool \<Rightarrow> list_step" where
  "onRequestGet_list req bucket_configured =
     (case handleCORS req [''*''] of
        Some r \<Rightarrow> Responds r
      | None \<Rightarrow>
          if \<not> bucket_configured
          then Responds (createErrorResponse ''Storage not configured'' (Some ''STORAGE_ERROR'') (Some 503) [])
          else CallsList (listOptions req))"

section \<open>Photo upload handler\<close>

text \<open>
  The environment of the upload handler: the bucket binding, by what \<open>put(key, ...)\<close> does
  for a key and a file (\<open>None\<close>: the object is stored; \<open>Some s\<close>: it throws a value that
  prints as \<open>s\<close>), and the configuration variables.
\<close>

record upload_env =
  PHOTOS_BUCKET :: "(string \<Rightarrow> File \<Rightarrow> string option) option"
  ENVIRONMENT :: string
  MAX_UPLOAD_SIZE :: "string option"
  UPLOAD_RATE_LIMIT :: "string option"

text \<open>
  What the run reads from the clock and the random source: \<open>Date.now()\<close> in the rate
  limiter, and for the \<open>i\<close>-th uploaded file the timestamp and random suffix of its unique
  name and the ISO time of its metadata. \<open>formatBytes\<close> is the size printer.
\<close>

record upload_world =
  now_ms :: int
  name_stamp :: "nat \<Rightarrow> int"
  name_random :: "nat \<Rightarrow> string"
  iso_time :: "nat \<Rightarrow> string"
  formatBytes :: "jsnum \<Rightarrow> string"

text \<open>The module-level map \<open>uploadCounts\<close>: per client address, a count and a reset time.\<close>

type_synonym upload_counts = "string \<Rightarrow> (nat \<times> int) option"

text \<open>\<open>Math.ceil(a / b)\<close> for integers and \<open>b > 0\<close>.\<close>

definition ceil_div :: "int \<Rightarrow> int \<Rightarrow> int" where
  "ceil_div a b = - ((- a) div b)"

definition checkRateLimit :: "request \<Rightarrow> upload_env \<Rightarrow> int \<Rightarrow> upload_counts \<Rightarrow> response option \<times> upload_counts" where
  "checkRateLimit req env now counts =
     (let clientIP = str_or (req_header req ''CF-Connecting-IP'') ''unknown'';
          rateLimit = parseInt (str_or (UPLOAD_RATE_LIMIT env) ''100'');
          windowMinutes = 60;
          fresh = (0, now + windowMinutes * 60 * 1000);
          rateLimitData = (case counts clientIP of
                             None \<Rightarrow> fresh
                           | Some (c, resetTime) \<Rightarrow> if resetTime < now then fresh else (c, resetTime))
      in if js_ge (Num (int (fst rateLimitData))) rateLimit
         then (let retryAfter = ceil_div (snd rateLimitData - now) 1000
               in (Some (createRateLimitError
                           (''Upload rate limit exceeded. Try again in ''
                            @ num_to_string (Num (ceil_div retryAfter 60)) @ '' minutes.'')
                           (Num retryAfter)),
                   counts))
         else (None, counts(clientIP \<mapsto> (Suc (fst rateLimitData), snd rateLimitData))))"

definition validateAuthentication :: "request \<Rightarrow> upload_env \<Rightarrow> response option" where
  "validateAuthentication req env =
     (if ENVIRONMENT env = ''production'' \<and> \<not> truthy_str (str_or (req_header req ''Cf-Access-Jwt-Assertion'') [])
      then Some (createUnauthorizedError ''Authentication required'')
      else if ENVIRONMENT env = ''development''
              \<and> req_header req ''X-Upload-Token'' \<noteq> Some ''dev-upload-token''
      then Some (createUnauthorizedError ''Invalid upload token'')
      else None)"

text \<open>
  \<open>uploadFile\<close> for the \<open>i\<close>-th file: the call of \<open>put\<close>, and the metadata or the message of
  the error it rethrows.
\<close>

definition upload_key :: "upload_world \<Rightarrow> nat \<Rightarrow> File \<Rightarrow> string" where
  "upload_key world i f =
     EVENT_PREFIX @ ''/''
       @ generateUniqueFilename (sanitizeFilename (file_name f)) (name_stamp world i) (name_random world i)"

definition uploadFile :: "(string \<Rightarrow> File \<Rightarrow> string option) \<Rightarrow> upload_world \<Rightarrow> nat \<Rightarrow> File \<Rightarrow> string + PhotoMetadata" where
  "uploadFile put world i f =
     (let originalName = sanitizeFilename (file_name f);
          key = upload_key world i f
      in case put key f of
           Some thrown \<Rightarrow> Inl (''Failed to upload '' @ file_name f @ '': '' @ thrown)
         | None \<Rightarrow> Inr \<lparr> pm_key = key, pm_filename = originalName, pm_size = file_size f,
                          pm_contentType = file_type f, pm_uploadedAt = iso_time world i \<rparr>)"

definition upload_constraints :: "upload_env \<Rightarrow> UploadConstraints" where
  "upload_constraints env =
     \<lparr> maxFileSize = parseInt (str_or (MAX_UPLOAD_SIZE env) ''10485760''),
       allowedTypes = [''image/jpeg'', ''image/png'', ''image/webp''],
       maxFiles = Num 10 \<rparr>"

text \<open>The message of the 400 response: each invalid file with its reason.\<close>

definition invalid_files_message :: "(File \<times> validation) list \<Rightarrow> string" where
  "invalid_files_message invalidFiles =
     ''Invalid files: ''
       @ join '', '' (map (\<lambda>(f, v). file_name f @ '': ''
                                   @ (case error v of None \<Rightarrow> ''undefined'' | Some e \<Rightarrow> e)) invalidFiles)"

text \<open>
  The part of \<open>onRequestPost\<close> after the files are parsed: validation of every file with
  \<open>validateFile\<close>, rejection of the whole batch when one is invalid, else one \<open>uploadFile\<close>
  per file (the calls of \<open>put\<close> are issued in the order of the files; \<open>allSettled\<close> keeps
  that order), and the 201 or 206 response.
\<close>

definition process_uploads :: "request \<Rightarrow> (string \<Rightarrow> File \<Rightarrow> string option) \<Rightarrow> upload_env \<Rightarrow> upload_world \<Rightarrow> File list \<Rightarrow> response \<times> effect list" where
  "process_uploads req put env world files =
     (let validationResults = map (\<lambda>f. (f, validateFile (formatBytes world) f (upload_constraints env))) files;
          invalidFiles = filter (\<lambda>(f, v). \<not> valid v) validationResults
      in if invalidFiles \<noteq> []
         then (createValidationError (invalid_files_message invalidFiles) (Some ''photos''), [])
         else
           (let validFiles = map fst (filter (\<lambda>(f, v). valid v) validationResults);
                indexed = zip [0..<length validFiles] validFiles;
                puts = map (\<lambda>(i, f). BucketPut (upload_key world i f) (file_name f)) indexed;
                uploadResults = map (\<lambda>(i, f). uploadFile put world i f) indexed;
                settled = zip uploadResults (map fst validationResults);
                successfulUploads = concat (map (\<lambda>(r, f). case r of Inr m \<Rightarrow> [m] | Inl e \<Rightarrow> []) settled);
                failedUploads = concat (map (\<lambda>(r, f). case r of
                                               Inr m \<Rightarrow> []
                                             | Inl e \<Rightarrow> [\<lparr> fu_filename = file_name f,
                                                            fu_error = (if truthy_str e then e else ''Upload failed'') \<rparr>])
                                          settled);
                logs = map (\<lambda>u. LogError (''Upload failed for '' @ fu_filename u)) failedUploads
                       @ (if successfulUploads \<noteq> [] then [LogAnalytics ''upload''] else [])
            in (\<lparr> status = (if failedUploads = [] then 201 else 206),
                  headers = [(''Content-Type'', ''application/json''),
                             (''Access-Control-Allow-Origin'', str_or (req_header req ''Origin'') ''*'')],
                  body = UploadBody (failedUploads = [])
                           (if successfulUploads \<noteq> [] then Some successfulUploads else None)
                           (if failedUploads \<noteq> [] then Some failedUploads else None) \<rparr>,
                puts @ logs)))"

text \<open>
  \<open>onRequestPost\<close> of the upload endpoint: preflight, bucket check, rate limit,
  authentication, then the files. An exception of \<open>request.formData()\<close> is caught by the
  handler's \<open>try\<close> block.
\<close>

definition onRequestPost :: "request \<Rightarrow> upload_env \<Rightarrow> upload_world \<Rightarrow> upload_counts \<Rightarrow> (response \<times> effect list) \<times> upload_counts" where
  "onRequestPost req env world counts =
     (case handleCORS req [''*''] of
        Some r \<Rightarrow> ((r, []), counts)
      | None \<Rightarrow>
          (case PHOTOS_BUCKET env of
             None \<Rightarrow> ((createErrorResponse ''Storage not configured'' (Some ''STORAGE_ERROR'') (Some 503) [],
                        [LogError ''PHOTOS_BUCKET not configured'']), counts)
           | Some put \<Rightarrow>
               (case checkRateLimit req env (now_ms world) counts of
                  (Some r, counts') \<Rightarrow> ((r, []), counts')
                | (None, counts') \<Rightarrow>
                    (case validateAuthentication req env of
                       Some r \<Rightarrow> ((r, []), counts')
                     | None \<Rightarrow>
                         (case req_form req of
                            Inl (Thrown e) \<Rightarrow>
                              ((createErrorResponse ''Upload processing failed'' None None [], [LogError e]),
                               counts')
                          | Inr files \<Rightarrow>
                              if files = []
                              then ((createValidationError ''No files provided'' (Some ''photos''), []), counts')
                              else (process_uploads req put env world files, counts'))))))"

text \<open>
  What the response reports for the \<open>i\<close>-th file \<open>f\<close> of a batch: the failure entry when
  \<open>put\<close> threw (the file name and the rethrown message), the metadata when it was stored.
\<close>

definition upload_failure :: "(string \<Rightarrow> File \<Rightarrow> string option) \<Rightarrow> upload_world \<Rightarrow> nat \<times> File \<Rightarrow> failed_upload" where
  "upload_failure put world =
     (\<lambda>(i, f). \<lparr> fu_filename = file_name f,
                 fu_error = ''Failed to upload '' @ file_name f @ '': ''
                            @ (case put (upload_key world i f) f of Some thrown \<Rightarrow> thrown | None \<Rightarrow> []) \<rparr>)"

definition upload_success :: "upload_world \<Rightarrow> nat \<times> File \<Rightarrow> PhotoMetadata" where
  "upload_success world =
     (\<lambda>(i, f). \<lparr> pm_key = upload_key world i f, pm_filename = sanitizeFilename (file_name f),
                 pm_size = file_size f, pm_contentType = file_type f, pm_uploadedAt = iso_time world i \<rparr>)"

fun is_store_write :: "effect \<Rightarrow> bool" where
  "is_store_write (BucketPut k n) = True"
| "is_store_write _ = False"

section \<open>Image serving handler\<close>

text \<open>
  The environment of the serving handler: \<open>PHOTOS_BUCKET.get\<close> (the body of the object,
  \<open>null\<close> for a missing key, or an error), \<open>cache.match\<close> on the edge cache (by the URL of
  the cache request), the configured cache lifetime, and the bindings of the adapter.
\<close>

record 'p image_env =
  ie_bucket :: "(string \<Rightarrow> js_error + bytes option) option"
  ie_cache_match :: "string \<Rightarrow> js_error + response option"
  ie_CACHE_TTL :: "string option"
  ie_adapter :: "'p adapter_env"

text \<open>The processing options \<open>onRequestGet\<close> parses from the query and the \<open>Accept\<close> header.\<close>

definition parse_dimension :: "string option \<Rightarrow> jsnum option" where
  "parse_dimension param =
     (case param of None \<Rightarrow> None | Some s \<Rightarrow> if truthy_str s then Some (parseInt s) else None)"

definition parse_processing_options :: "request \<Rightarrow> ImageProcessingOptions" where
  "parse_processing_options req =
     \<lparr> width = parse_dimension (searchParams_get req ''w''),
       height = parse_dimension (searchParams_get req ''h''),
       quality = Some (case parse_dimension (searchParams_get req ''q'') of None \<Rightarrow> Num 90 | Some q \<Rightarrow> q),
       format = Some (getOptimalFormat req),
       watermark = Some (searchParams_get req ''watermark'' \<noteq> Some ''false'') \<rparr>"

text \<open>\<open>JSON.stringify(processingOptions)\<close>: the fields that are set, \<open>NaN\<close> printed as \<open>null\<close>.\<close>

definition json_number :: "jsnum \<Rightarrow> string" where
  "json_number v = (case v of NaN \<Rightarrow> ''null'' | Num n \<Rightarrow> num_to_string (Num n))"

definition json_field :: "string \<Rightarrow> string \<Rightarrow> string" where
  "json_field name v = [CHR 0x22] @ name @ [CHR 0x22] @ '':'' @ v"

definition json_options :: "ImageProcessingOptions \<Rightarrow> string" where
  "json_options options =
     ''{'' @ join '',''
       ((case width options of None \<Rightarrow> [] | Some w \<Rightarrow> [json_field ''width'' (json_number w)])
        @ (case height options of None \<Rightarrow> [] | Some h \<Rightarrow> [json_field ''height'' (json_number h)])
        @ (case quality options of None \<Rightarrow> [] | Some q \<Rightarrow> [json_field ''quality'' (json_number q)])
        @ (case format options of None \<Rightarrow> [] | Some f \<Rightarrow> [json_field ''format'' ([CHR 0x22] @ f @ [CHR 0x22])])
        @ (case watermark options of None \<Rightarrow> []
           | Some b \<Rightarrow> [json_field ''watermark'' (if b then ''true'' else ''false'')]))
     @ ''}''"

text \<open>\<open>headers.set(name, value)\<close>: replaces the header when it is there, appends it otherwise.\<close>

definition header_set :: "string \<Rightarrow> string \<Rightarrow> (string \<times> string) list \<Rightarrow> (string \<times> string) list" where
  "header_set name v hs =
     (if name \<in> set (map fst hs) then map (\<lambda>(k, old). if k = name then (k, v) else (k, old)) hs
      else hs @ [(name, v)])"

definition full_key :: "string \<Rightarrow> string" where
  "full_key imageKey = (if startsWith imageKey EVENT_PREFIX then imageKey else EVENT_PREFIX @ ''/'' @ imageKey)"

definition cache_url :: "string \<Rightarrow> ImageProcessingOptions \<Rightarrow> string" where
  "cache_url fullKey options = ''https://cache.example.com/'' @ createCacheKey_handler fullKey options"

definition serve_failed :: "string \<Rightarrow> effect list \<Rightarrow> response \<times> effect list" where
  "serve_failed e calls = (createErrorResponse ''Failed to serve image'' None None [], calls @ [LogError e])"

text \<open>
  \<open>new Response(body, {status, headers})\<close> fills its header list entry by entry: a value
  loses its leading and trailing HTTP whitespace (tab, line feed, carriage return, space)
  and must then have no \<open>NUL\<close>, line feed or carriage return, or the constructor throws a
  \<open>TypeError\<close>. The names used by the handler are constants and legal.
\<close>

definition http_whitespace :: "char \<Rightarrow> bool" where
  "http_whitespace c = (c \<in> set [CHR 0x09, CHR 0x0A, CHR 0x0D, CHR 0x20])"

definition normalize_header_value :: "string \<Rightarrow> string" where
  "normalize_header_value v = rev (dropWhile http_whitespace (rev (dropWhile http_whitespace v)))"

definition legal_header_value :: "string \<Rightarrow> bool" where
  "legal_header_value v =
     list_all (\<lambda>c. c \<notin> set [CHR 0x00, CHR 0x0A, CHR 0x0D]) (normalize_header_value v)"

definition new_Response :: "nat \<Rightarrow> (string \<times> string) list \<Rightarrow> body \<Rightarrow> js_error + response" where
  "new_Response st hs b =
     (if list_all (\<lambda>(name, v). legal_header_value v) hs
      then Inr \<lparr> status = st, headers = map (\<lambda>(name, v). (name, normalize_header_value v)) hs, body = b \<rparr>
      else Inl (Thrown ''TypeError: Invalid header value''))"

text \<open>
  The miss path of \<open>onRequestGet\<close>: fetch the original, run the adapter, build the answer
  and queue the cache write. \<open>calls\<close> are the calls made so far. The key of the request
  goes into the header \<open>X-Original-Key\<close>, so a key that is no legal header value makes
  the constructor throw after the object store and the adapter have been called.
\<close>

definition serve_miss :: "string \<Rightarrow> string \<Rightarrow> ImageProcessingOptions \<Rightarrow> 'p image_env \<Rightarrow> (string \<Rightarrow> js_error + bytes option) \<Rightarrow> effect list \<Rightarrow> response \<times> effect list" where
  "serve_miss imageKey fullKey options env get calls =
     (case get fullKey of
        Inl (Thrown e) \<Rightarrow> serve_failed e (calls @ [BucketGet fullKey])
      | Inr None \<Rightarrow> (createNotFoundError (Some imageKey), calls @ [BucketGet fullKey])
      | Inr (Some originalBody) \<Rightarrow>
          (case processImage originalBody options (ie_adapter env) of
             Inl (Thrown e) \<Rightarrow> serve_failed e (calls @ [BucketGet fullKey, AdapterCall fullKey])
           | Inr processed \<Rightarrow>
               if \<not> ir_ok processed
               then (createErrorResponse ''Image processing failed'' (Some ''PROCESSING_ERROR'') None [],
                     calls @ [BucketGet fullKey, AdapterCall fullKey, LogError ''Image processing failed''])
               else
                 (case new_Response 200
                         [(''Content-Type'',
                           str_or (ir_content_type processed) (''image/'' @ str_or (format options) ''undefined'')),
                          (''Cache-Control'', ''public, max-age='' @ str_or (ie_CACHE_TTL env) ''604800''),
                          (''X-Cache'', ''MISS''),
                          (''Access-Control-Allow-Origin'', ''*''),
                          (''Access-Control-Allow-Methods'', ''GET, OPTIONS''),
                          (''Vary'', ''Accept''),
                          (''X-Original-Key'', fullKey),
                          (''X-Processing-Options'', json_options options)]
                         (ImageBody (ir_body processed)) of
                    Inl (Thrown e) \<Rightarrow> serve_failed e (calls @ [BucketGet fullKey, AdapterCall fullKey])
                  | Inr resp \<Rightarrow>
                      (let cacheTTL = parseInt (str_or (ie_CACHE_TTL env) ''604800'');
                           cacheResponse =
                             resp \<lparr> headers := header_set ''Cache-Control''
                                                  (''public, max-age='' @ num_to_string cacheTTL) (headers resp) \<rparr>
                       in (resp,
                           calls @ [BucketGet fullKey, AdapterCall fullKey,
                                   CachePut (cache_url fullKey options) cacheResponse,
                                   LogAnalytics ''image_served''])))))"

text \<open>
  \<open>onRequestGet\<close> of the image endpoint: preflight, bucket check, key resolution, option
  parsing and validation, cache lookup, then the miss path. Every exception inside is
  caught by the handler's \<open>try\<close> block and answered with \<open>Failed to serve image\<close>.
\<close>

definition onRequestGet_image :: "request \<Rightarrow> 'p image_env \<Rightarrow> response \<times> effect list" where
  "onRequestGet_image req env =
     (case handleCORS req [''*''] of
        Some r \<Rightarrow> (r, [])
      | None \<Rightarrow>
          (case ie_bucket env of
             None \<Rightarrow> (createErrorResponse ''Storage not configured'' (Some ''STORAGE_ERROR'') (Some 503) [],
                       [LogError ''PHOTOS_BUCKET not configured''])
           | Some get \<Rightarrow>
               (case req_key req of
                  None \<Rightarrow> (createNotFoundError None, [])
                | Some imageKey \<Rightarrow>
                    if \<not> truthy_str imageKey then (createNotFoundError None, [])
                    else
                      (let fullKey = full_key imageKey;
                           processingOptions = parse_processing_options req
                       in case validateProcessingOptions processingOptions of
                            Some err \<Rightarrow> (createErrorResponse err (Some ''VALIDATION_FAILED'') (Some 400) [], [])
                          | None \<Rightarrow>
                              (let url = cache_url fullKey processingOptions
                               in case ie_cache_match env url of
                                    Inl (Thrown e) \<Rightarrow> serve_failed e [CacheMatch url]
                                  | Inr (Some cached) \<Rightarrow>
                                      (cached \<lparr> headers := header_set ''Access-Control-Allow-Origin'' ''*''
                                                              (header_set ''X-Cache'' ''HIT'' (headers cached)) \<rparr>,
                                       [CacheMatch url])
                                  | Inr None \<Rightarrow>
                                      serve_miss imageKey fullKey processingOptions env get [CacheMatch url])))))"

text \<open>
  The specification's wording of a bound violation: the option is a number below the lower
  or above the upper bound.
\<close>

definition out_of_range :: "int \<Rightarrow> int \<Rightarrow> jsnum option \<Rightarrow> bool" where
  "out_of_range lo hi x = (case x of Some (Num n) \<Rightarrow> n < lo \<or> hi < n | _ \<Rightarrow> False)"

definition bound_message :: "ImageProcessingOptions \<Rightarrow> string" where
  "bound_message options =
     (if out_of_range 1 4000 (width options) then ''Width must be between 1 and 4000 pixels''
      else if out_of_range 1 4000 (height options) then ''Height must be between 1 and 4000 pixels''
      else ''Quality must be between 1 and 100'')"

section \<open>Concrete inputs\<close>

text \<open>A \<open>GET\<close> request with the given route key and query, and no headers.\<close>

definition get_request :: "string option \<Rightarrow> (string \<times> string) list \<Rightarrow> request" where
  "get_request k q =
     \<lparr> req_method = ''GET'', req_header = (\<lambda>h. None), req_key = k, req_query = q, req_form = Inr [] \<rparr>"

definition sample_options :: ImageProcessingOptions where
  "sample_options =
     \<lparr> width = Some (Num 800), height = None, quality = Some (Num 90),
       format = Some ''webp'', watermark = Some True \<rparr>"

text \<open>Sample files: the name, the declared type, the content; the reported size is the content's.\<close>

definition sample_file :: "string \<Rightarrow> string \<Rightarrow> bytes \<Rightarrow> File" where
  "sample_file name type content =
     \<lparr> file_name = name, file_size = length content, file_type = type, file_bytes = content,
       file_read_fails = (\<lambda>a b. False) \<rparr>"

definition jpeg_content :: bytes where
  "jpeg_content = [0xff, 0xd8, 0xff, 0xe0, 0x00, 0x10, 0x4a, 0x46, 0x49, 0x46]"

definition webp_content :: bytes where
  "webp_content = [0x52, 0x49, 0x46, 0x46, 0x24, 0x00, 0x00, 0x00, 0x57, 0x45, 0x42, 0x50, 0x56, 0x50]"

definition text_content :: bytes where
  "text_content = [0x68, 0x65, 0x6c, 0x6c, 0x6f]"

text \<open>A size printer standing for \<open>formatBytes\<close>: the number of bytes.\<close>

definition print_bytes :: "jsnum \<Rightarrow> string" where
  "print_bytes n = num_to_string n @ '' Bytes''"

text \<open>
  A transform service over processors that only remember the requested quality: the JPEG
  it returns at quality \<open>q\<close> is \<open>10000 * q\<close> bytes long. An asset store that always throws,
  one that is empty, and one that holds one logo.
\<close>

definition sized_response :: "int \<Rightarrow> image_response" where
  "sized_response q =
     \<lparr> ir_ok = True, ir_content_type = Some ''image/jpeg'',
       ir_content_length = Some (num_to_string (Num (10000 * q))), ir_body = [] \<rparr>"

definition linear_service :: "int images_api" where
  "linear_service =
     \<lparr> img_input = (\<lambda>d. Inr 0),
       img_transform = (\<lambda>p t. case t_quality t of Some (Num q) \<Rightarrow> Inr q | _ \<Rightarrow> Inr p),
       img_draw = (\<lambda>p overlay opts. Inl (Thrown ''Error: draw failed'')),
       img_respond = (\<lambda>p out. Resolves (sized_response p)) \<rparr>"

definition failing_store :: kv_store where
  "failing_store name = Inl (Thrown ''Error: KV unavailable'')"

definition empty_store :: kv_store where
  "empty_store name = Inr None"

definition one_logo_store :: kv_store where
  "one_logo_store name = (if name = ''hmb-logo.png'' then Inr (Some [0x89, 0x50]) else Inr None)"

definition linear_env :: "kv_store option \<Rightarrow> int adapter_env" where
  "linear_env kv = \<lparr> IMAGES = Some linear_service, BRANDING_ASSETS = kv \<rparr>"

text \<open>An upload request of the development mode, its environment, a clock and two buckets.\<close>

definition post_request :: "File list \<Rightarrow> request" where
  "post_request files =
     \<lparr> req_method = ''POST'',
       req_header = (\<lambda>h. if h = ''X-Upload-Token'' then Some ''dev-upload-token'' else None),
       req_key = None, req_query = [], req_form = Inr files \<rparr>"

definition dev_env :: "(string \<Rightarrow> File \<Rightarrow> string option) \<Rightarrow> upload_env" where
  "dev_env put =
     \<lparr> PHOTOS_BUCKET = Some put, ENVIRONMENT = ''development'', MAX_UPLOAD_SIZE = None,
       UPLOAD_RATE_LIMIT = None \<rparr>"

definition sample_world :: upload_world where
  "sample_world =
     \<lparr> now_ms = 1640995200000, name_stamp = (\<lambda>i. 1640995200000 + int i), name_random = (\<lambda>i. ''abc123''),
       iso_time = (\<lambda>i. ''2022-01-01T00:00:00.000Z''), formatBytes = print_bytes \<rparr>"

definition put_ok :: "string \<Rightarrow> File \<Rightarrow> string option" where
  "put_ok k f = None"

definition put_failing_for :: "string \<Rightarrow> string \<Rightarrow> File \<Rightarrow> string option" where
  "put_failing_for name k f = (if file_name f = name then Some ''Error: R2 upload failed'' else None)"

definition no_counts :: upload_counts where
  "no_counts = (\<lambda>ip. None)"

definition photo_a :: File where
  "photo_a = sample_file ''a.jpg'' ''image/jpeg'' jpeg_content"

definition photo_w :: File where
  "photo_w = sample_file ''w.webp'' ''image/webp'' webp_content"

definition notes_txt :: File where
  "notes_txt = sample_file ''notes.txt'' ''text/plain'' text_content"

definition eleven_photos :: "File list" where
  "eleven_photos = map (\<lambda>i. sample_file (''p'' @ digits_of (int i) @ ''.jpg'') ''image/jpeg'' jpeg_content) [0..<11]"

text \<open>
  A serving environment: a bucket that holds one photo, an edge cache that is empty, and the
  linear transform service with an empty asset store.
\<close>

definition one_photo_bucket :: "string \<Rightarrow> js_error + bytes option" where
  "one_photo_bucket k = (if k = ''25thAnniversary/a.jpg'' then Inr (Some jpeg_content) else Inr None)"

definition serving_env :: "int image_env" where
  "serving_env =
     \<lparr> ie_bucket = Some one_photo_bucket, ie_cache_match = (\<lambda>url. Inr None), ie_CACHE_TTL = None,
       ie_adapter = linear_env (Some empty_store) \<rparr>"

section \<open>Properties of \<open>sanitizeFilename\<close>\<close>

lemma collapse_runs_LOW_LINE:
  "collapse_runs (LOW_LINE # us) = LOW_LINE # collapse_runs (dropWhile (\<lambda>d. d = LOW_LINE) us)"
proof (induction us)
  case Nil
  show ?case by simp
next
  case (Cons d ds)
  then show ?case by (cases ds) auto
qed

lemma collapse_runs_copy:
  "\<not> (u = LOW_LINE \<and> takeWhile (\<lambda>d. d = LOW_LINE) us \<noteq> []) \<Longrightarrow>
     collapse_runs (u # us) = u # collapse_runs us"
  by (cases us) auto

lemma collapse_underscores_utf16_runs: "collapse_underscores_utf16 s = collapse_runs s"
proof (induction s rule: collapse_underscores_utf16.induct)
  case 1
  show ?case by simp
next
  case (2 u us)
  show ?case
  proof (cases "u = LOW_LINE \<and> takeWhile (\<lambda>d. d = LOW_LINE) us \<noteq> []")
    case True
    with 2 show ?thesis
      by (simp add: collapse_runs_LOW_LINE)
  next
    case False
    then have "collapse_underscores_utf16 (u # us) = u # collapse_underscores_utf16 us"
      by auto
    with 2 False show ?thesis
      by (simp only: collapse_runs_copy [OF False]) auto
  qed
qed

lemma collapse_runs_map:
  assumes "\<And>u. f u = LOW_LINE \<longleftrightarrow> u = LOW_LINE"
  shows "collapse_runs (map f s) = map f (collapse_runs s)"
  by (induction s rule: collapse_runs.induct) (simp_all add: assms)

lemma set_collapse_runs: "set (collapse_runs s) \<subseteq> set s"
  by (induction s rule: collapse_runs.induct) auto

lemma lower_unit_ascii: "u < 0xC0 \<Longrightarrow> lower_unit u = [ascii_lower u]"
  by (simp add: lower_unit_def ascii_lower_def latin1_capital_def ascii_capital_def)

lemma toLowerCase_utf16_ascii:
  "\<forall>u \<in> set s. u < 0xC0 \<Longrightarrow> toLowerCase_utf16 s = map ascii_lower s"
  by (induction s) (simp_all add: toLowerCase_utf16_def lower_unit_ascii)

lemma replaced_below_C0: "(if name_unit u then u else LOW_LINE) < 0xC0"
  by (auto simp: name_unit_def LOW_LINE_def)

lemma sanitizeFilename_utf16_replace_first:
  "sanitizeFilename_utf16 name = sanitizeFilename_replace_first name"
proof -
  have "\<forall>u \<in> set (replace_unsafe_utf16 name). u < 0xC0"
    unfolding replace_unsafe_utf16_def using replaced_below_C0 by (induction name) simp_all
  then have "\<forall>u \<in> set (collapse_runs (replace_unsafe_utf16 name)). u < 0xC0"
    using set_collapse_runs by blast
  then show ?thesis
    by (simp add: sanitizeFilename_utf16_def sanitizeFilename_replace_first_def
          collapse_underscores_utf16_runs toLowerCase_utf16_ascii replace_unsafe_utf16_def)
qed

text \<open>Lowercasing one code unit to one code unit, where \<open>U+0130\<close> and \<open>U+212A\<close> do not occur.\<close>

lemma lower_unit_single:
  "u \<noteq> 0x0130 \<Longrightarrow> u \<noteq> 0x212A \<Longrightarrow>
     lower_unit u = [if ascii_capital u \<or> latin1_capital u then u + 0x20 else u]"
  by (simp add: lower_unit_def)

lemma toLowerCase_utf16_single:
  "\<forall>u \<in> set s. u \<noteq> 0x0130 \<and> u \<noteq> 0x212A \<Longrightarrow>
     toLowerCase_utf16 s = map (\<lambda>u. if ascii_capital u \<or> latin1_capital u then u + 0x20 else u) s"
  by (induction s) (simp_all add: toLowerCase_utf16_def lower_unit_single)

lemma ascii_lower_LOW_LINE: "ascii_lower u = LOW_LINE \<longleftrightarrow> u = LOW_LINE"
  by (auto simp: ascii_lower_def ascii_capital_def LOW_LINE_def)

lemma lower_then_replace:
  "ascii_lower (if name_unit u then u else LOW_LINE)
   = (if lower_name_unit (if ascii_capital u \<or> latin1_capital u then u + 0x20 else u)
      then (if ascii_capital u \<or> latin1_capital u then u + 0x20 else u) else LOW_LINE)"
  by (auto simp: ascii_lower_def name_unit_def lower_name_unit_def ascii_capital_def
        latin1_capital_def LOW_LINE_def)

lemma replace_first_eq_stated:
  assumes "\<forall>u \<in> set name. u \<noteq> 0x0130 \<and> u \<noteq> 0x212A"
  shows "sanitizeFilename_replace_first name = sanitizeFilename_stated name"
proof -
  have "map ascii_lower (collapse_runs (map (\<lambda>u. if name_unit u then u else LOW_LINE) name))
        = collapse_runs (map ascii_lower (map (\<lambda>u. if name_unit u then u else LOW_LINE) name))"
    by (rule collapse_runs_map [symmetric]) (rule ascii_lower_LOW_LINE)
  also have "map ascii_lower (map (\<lambda>u. if name_unit u then u else LOW_LINE) name)
        = map (\<lambda>u. if lower_name_unit u then u else LOW_LINE) (toLowerCase_utf16 name)"
    by (simp add: toLowerCase_utf16_single [OF assms] lower_then_replace comp_def)
  finally show ?thesis
    by (simp add: sanitizeFilename_replace_first_def sanitizeFilename_stated_def)
qed

lemma collapse_runs_all_LOW_LINE:
  "s \<noteq> [] \<Longrightarrow> \<forall>u \<in> set s. u = LOW_LINE \<Longrightarrow> collapse_runs s = [LOW_LINE]"
  by (induction s rule: collapse_runs.induct) auto

lemma sanitizeFilename_utf16_all_special:
  assumes "name \<noteq> []" and "list_all (\<lambda>u. \<not> name_unit u) name"
  shows "sanitizeFilename_utf16 name = [LOW_LINE]"
proof -
  have "\<forall>u \<in> set (map (\<lambda>u. if name_unit u then u else LOW_LINE) name). u = LOW_LINE"
    using assms(2) by (auto simp: list_all_iff)
  moreover have "map (\<lambda>u. if name_unit u then u else LOW_LINE) name \<noteq> []"
    using assms(1) by simp
  ultimately have "collapse_runs (map (\<lambda>u. if name_unit u then u else LOW_LINE) name) = [LOW_LINE]"
    by (rule collapse_runs_all_LOW_LINE [rotated])
  then show ?thesis
    by (simp add: sanitizeFilename_utf16_replace_first sanitizeFilename_replace_first_def
          ascii_lower_LOW_LINE)
qed

text \<open>The function on 8-bit strings is the function on UTF-16 strings, on code units below 256.\<close>

lemma every_char:
  assumes "list_all (\<lambda>n. P (char_of n)) [0 .. (255 :: int)]"
  shows "P c"
proof -
  have "(of_char c :: nat) < 256"
    by (rule nat_of_char_less_256)
  then have "int (of_char c) < 256 \<and> 0 \<le> int (of_char c)"
    by simp
  then have "0 \<le> (of_char c :: int) \<and> (of_char c :: int) \<le> 255"
    by (simp only: of_nat_of_char) simp
  then have "(of_char c :: int) \<in> set [0 .. 255]"
    by simp
  with assms have "P (char_of (of_char c :: int))"
    by (simp only: list_all_iff)
  then show ?thesis
    by simp
qed

lemma filename_char_name_unit: "filename_char c \<longleftrightarrow> name_unit (of_char c)"
  by (rule every_char) code_simp

lemma lower_char_ascii_lower: "of_char (lower_char c) = ascii_lower (of_char c)"
  by (rule every_char) code_simp

lemma of_char_LOW_LINE: "(of_char c :: int) = LOW_LINE \<longleftrightarrow> c = CHR ''_''"
  by (rule every_char) code_simp

lemma collapse_underscores_of_char:
  "map of_char (collapse_underscores s) = collapse_runs (map of_char s)"
proof (induction s rule: collapse_underscores.induct)
  case 1
  show ?case by simp
next
  case (2 c cs)
  have tw: "takeWhile (\<lambda>d. d = LOW_LINE) (map of_char cs) = map of_char (takeWhile (\<lambda>d. d = CHR ''_'') cs)"
    by (simp add: takeWhile_map comp_def of_char_LOW_LINE)
  have dw: "dropWhile (\<lambda>d. d = LOW_LINE) (map of_char cs) = map of_char (dropWhile (\<lambda>d. d = CHR ''_'') cs)"
    by (simp add: dropWhile_map comp_def of_char_LOW_LINE)
  show ?case
  proof (cases "c = CHR ''_'' \<and> takeWhile (\<lambda>d. d = CHR ''_'') cs \<noteq> []")
    case True
    then have "(of_char c :: int) = LOW_LINE"
      by (simp add: LOW_LINE_def)
    then have b: "collapse_runs (map of_char (c # cs))
                  = LOW_LINE # collapse_runs (map of_char (dropWhile (\<lambda>d. d = CHR ''_'') cs))"
      by (simp only: list.map collapse_runs_LOW_LINE dw)
    have a: "map of_char (collapse_underscores (c # cs))
             = LOW_LINE # map of_char (collapse_underscores (dropWhile (\<lambda>d. d = CHR ''_'') cs))"
      using True by (simp add: LOW_LINE_def)
    from 2 True show ?thesis
      unfolding a b by simp
  next
    case False
    then have "\<not> (of_char c = LOW_LINE \<and> takeWhile (\<lambda>d. d = LOW_LINE) (map of_char cs) \<noteq> [])"
      by (simp add: tw of_char_LOW_LINE)
    then have "collapse_runs (of_char c # map of_char cs) = of_char c # collapse_runs (map of_char cs)"
      by (rule collapse_runs_copy)
    with False 2 show ?thesis
      by auto
  qed
qed

lemma sanitizeFilename_utf16_agrees:
  "utf16 (sanitizeFilename s) = sanitizeFilename_utf16 (utf16 s)"
proof -
  have r: "map of_char (replace_unsafe s)
           = map (\<lambda>u. if name_unit u then u else LOW_LINE) (map of_char s)"
    by (simp add: replace_unsafe_def comp_def filename_char_name_unit LOW_LINE_def)
  have "utf16 (sanitizeFilename s)
        = map ascii_lower (map of_char (collapse_underscores (replace_unsafe s)))"
    by (simp add: utf16_def sanitizeFilename_def toLowerCase_def comp_def lower_char_ascii_lower)
  also have "\<dots> = map ascii_lower (collapse_runs (map (\<lambda>u. if name_unit u then u else LOW_LINE) (map of_char s)))"
    by (simp only: collapse_underscores_of_char r)
  finally show ?thesis
    by (simp add: sanitizeFilename_utf16_replace_first sanitizeFilename_replace_first_def utf16_def)
qed

text \<open>
  Where \<open>U+0130\<close> or \<open>U+212A\<close> occurs the two orders differ: the letters \<open>i\<close> and \<open>k\<close> of
  the result are counted. Collapsing keeps every code unit other than the underscore.
\<close>

lemma filter_collapse_runs: "\<not> P LOW_LINE \<Longrightarrow> filter P (collapse_runs s) = filter P s"
  by (induction s rule: collapse_runs.induct) auto

lemma replaced_letter:
  "(ascii_lower (if name_unit u then u else LOW_LINE) = 0x69
    \<or> ascii_lower (if name_unit u then u else LOW_LINE) = 0x6B)
   \<longleftrightarrow> (u = 0x69 \<or> u = 0x6B \<or> u = 0x49 \<or> u = 0x4B)"
proof (cases "name_unit u")
  case True
  have "(ascii_lower u = 0x69 \<or> ascii_lower u = 0x6B) \<longleftrightarrow> (u = 0x69 \<or> u = 0x6B \<or> u = 0x49 \<or> u = 0x4B)"
    unfolding ascii_lower_def ascii_capital_def by (cases "0x41 \<le> u \<and> u \<le> 0x5A") auto
  with True show ?thesis
    by simp
next
  case False
  then have "u \<noteq> 0x69 \<and> u \<noteq> 0x6B \<and> u \<noteq> 0x49 \<and> u \<noteq> 0x4B"
    unfolding name_unit_def by auto
  with False show ?thesis
    by (simp add: ascii_lower_def ascii_capital_def LOW_LINE_def)
qed

lemma replace_first_letters:
  "length (filter (\<lambda>u. u = 0x69 \<or> u = 0x6B) (sanitizeFilename_replace_first name))
   = length (filter (\<lambda>u. u = 0x69 \<or> u = 0x6B \<or> u = 0x49 \<or> u = 0x4B) name)"
proof -
  have p: "\<not> ((\<lambda>u. u = 0x69 \<or> u = 0x6B) \<circ> ascii_lower) LOW_LINE"
    by (simp add: ascii_lower_def ascii_capital_def LOW_LINE_def)
  have "length (filter (\<lambda>u. u = 0x69 \<or> u = 0x6B) (sanitizeFilename_replace_first name))
        = length (filter ((\<lambda>u. u = 0x69 \<or> u = 0x6B) \<circ> ascii_lower)
            (collapse_runs (map (\<lambda>u. if name_unit u then u else LOW_LINE) name)))"
    by (simp only: sanitizeFilename_replace_first_def filter_map length_map)
  also have "\<dots> = length (filter ((\<lambda>u. u = 0x69 \<or> u = 0x6B) \<circ> ascii_lower)
            (map (\<lambda>u. if name_unit u then u else LOW_LINE) name))"
    by (simp only: filter_collapse_runs [of "(\<lambda>u. u = 0x69 \<or> u = 0x6B) \<circ> ascii_lower", OF p])
  also have "\<dots> = length (filter (\<lambda>u. u = 0x69 \<or> u = 0x6B \<or> u = 0x49 \<or> u = 0x4B) name)"
    by (induction name) (simp_all add: replaced_letter)
  finally show ?thesis .
qed

lemma stated_letters_unit:
  "length (filter (\<lambda>u. u = 0x69 \<or> u = 0x6B)
     (map (\<lambda>u. if lower_name_unit u then u else LOW_LINE) (lower_unit v)))
   = (if v = 0x69 \<or> v = 0x6B \<or> v = 0x49 \<or> v = 0x4B \<or> v = 0x0130 \<or> v = 0x212A then 1 else 0)"
proof -
  consider (sp1) "v = 0x0130" | (sp2) "v = 0x212A" | (cap) "ascii_capital v" | (lat) "latin1_capital v"
    | (other) "v \<noteq> 0x0130" "v \<noteq> 0x212A" "\<not> ascii_capital v" "\<not> latin1_capital v"
    by blast
  then show ?thesis
  proof cases
    case sp1
    then show ?thesis
      by (simp add: lower_unit_def lower_name_unit_def ascii_capital_def latin1_capital_def LOW_LINE_def)
  next
    case sp2
    then show ?thesis
      by (simp add: lower_unit_def lower_name_unit_def ascii_capital_def latin1_capital_def LOW_LINE_def)
  next
    case cap
    then have l: "lower_unit v = [v + 0x20]"
      by (simp add: lower_unit_def)
    from cap show ?thesis
      unfolding l by (auto simp: lower_name_unit_def ascii_capital_def LOW_LINE_def)
  next
    case lat
    then have l: "lower_unit v = [v + 0x20]"
      by (simp add: lower_unit_def)
    from lat show ?thesis
      unfolding l by (auto simp: lower_name_unit_def latin1_capital_def LOW_LINE_def)
  next
    case other
    then have l: "lower_unit v = [v]"
      by (simp add: lower_unit_def)
    from other show ?thesis
      unfolding l by (auto simp: lower_name_unit_def ascii_capital_def LOW_LINE_def)
  qed
qed

lemma stated_letters_split:
  "(if v = 0x69 \<or> v = 0x6B \<or> v = 0x49 \<or> v = 0x4B \<or> v = 0x0130 \<or> v = 0x212A then 1 else 0 :: nat)
   = (if v = 0x69 \<or> v = 0x6B \<or> v = 0x49 \<or> v = 0x4B then 1 else 0)
     + (if v = 0x0130 \<or> v = 0x212A then 1 else 0)" for v :: int
proof (cases "v = 0x0130 \<or> v = 0x212A")
  case True
  then have "\<not> (v = 0x69 \<or> v = 0x6B \<or> v = 0x49 \<or> v = 0x4B)"
    by auto
  with True show ?thesis
    by simp
next
  case False
  then show ?thesis
    by simp
qed

lemma length_filter_Cons:
  "length (filter P (v # vs)) = (if P v then 1 else 0) + length (filter P vs)"
  by simp

lemma stated_letters:
  "length (filter (\<lambda>u. u = 0x69 \<or> u = 0x6B) (sanitizeFilename_stated name))
   = length (filter (\<lambda>u. u = 0x69 \<or> u = 0x6B \<or> u = 0x49 \<or> u = 0x4B) name)
     + length (filter (\<lambda>u. u = 0x0130 \<or> u = 0x212A) name)"
proof -
  have p: "\<not> (\<lambda>u. u = 0x69 \<or> u = 0x6B) LOW_LINE"
    by (simp add: LOW_LINE_def)
  have "length (filter (\<lambda>u. u = 0x69 \<or> u = 0x6B) (sanitizeFilename_stated name))
        = length (filter (\<lambda>u. u = 0x69 \<or> u = 0x6B)
            (map (\<lambda>u. if lower_name_unit u then u else LOW_LINE) (toLowerCase_utf16 name)))"
    by (simp only: sanitizeFilename_stated_def
          filter_collapse_runs [of "\<lambda>u. u = 0x69 \<or> u = 0x6B", OF p])
  also have "\<dots> = length (filter (\<lambda>u. u = 0x69 \<or> u = 0x6B \<or> u = 0x49 \<or> u = 0x4B) name)
     + length (filter (\<lambda>u. u = 0x0130 \<or> u = 0x212A) name)"
  proof (induction name)
    case Nil
    show ?case by (simp add: toLowerCase_utf16_def)
  next
    case (Cons v vs)
    have "toLowerCase_utf16 (v # vs) = lower_unit v @ toLowerCase_utf16 vs"
      by (simp add: toLowerCase_utf16_def)
    then have "length (filter (\<lambda>u. u = 0x69 \<or> u = 0x6B)
            (map (\<lambda>u. if lower_name_unit u then u else LOW_LINE) (toLowerCase_utf16 (v # vs))))
          = (if v = 0x69 \<or> v = 0x6B \<or> v = 0x49 \<or> v = 0x4B \<or> v = 0x0130 \<or> v = 0x212A then 1 else 0)
            + length (filter (\<lambda>u. u = 0x69 \<or> u = 0x6B)
                (map (\<lambda>u. if lower_name_unit u then u else LOW_LINE) (toLowerCase_utf16 vs)))"
      by (simp only: map_append filter_append length_append stated_letters_unit)
    then show ?case
      by (simp only: Cons length_filter_Cons stated_letters_split add_ac)
  qed
  finally show ?thesis .
qed

lemma stated_eq_replace_first_only:
  assumes "sanitizeFilename_replace_first name = sanitizeFilename_stated name"
  shows "\<forall>u \<in> set name. u \<noteq> 0x0130 \<and> u \<noteq> 0x212A"
proof -
  have "length (filter (\<lambda>u. u = 0x69 \<or> u = 0x6B) (sanitizeFilename_replace_first name))
        = length (filter (\<lambda>u. u = 0x69 \<or> u = 0x6B) (sanitizeFilename_stated name))"
    by (simp only: assms)
  then have "length (filter (\<lambda>u. u = 0x69 \<or> u = 0x6B \<or> u = 0x49 \<or> u = 0x4B) name)
        = length (filter (\<lambda>u. u = 0x69 \<or> u = 0x6B \<or> u = 0x49 \<or> u = 0x4B) name)
          + length (filter (\<lambda>u. u = 0x0130 \<or> u = 0x212A) name)"
    by (simp only: replace_first_letters stated_letters)
  then have "length (filter (\<lambda>u. u = 0x0130 \<or> u = 0x212A) name) = 0"
    by linarith
  then have "filter (\<lambda>u. u = 0x0130 \<or> u = 0x212A) name = []"
    by (simp only: length_0_conv)
  then have "\<forall>u \<in> set name. \<not> (u = 0x0130 \<or> u = 0x212A)"
    by (simp only: filter_empty_conv)
  then show ?thesis
    by (simp only: de_Morgan_disj)
qed

lemma replace_first_eq_stated_iff:
  "sanitizeFilename_replace_first name = sanitizeFilename_stated name
   \<longleftrightarrow> list_all (\<lambda>u. u \<noteq> 0x0130 \<and> u \<noteq> 0x212A) name"
proof
  assume "sanitizeFilename_replace_first name = sanitizeFilename_stated name"
  then have "\<forall>u \<in> set name. u \<noteq> 0x0130 \<and> u \<noteq> 0x212A"
    by (rule stated_eq_replace_first_only)
  then show "list_all (\<lambda>u. u \<noteq> 0x0130 \<and> u \<noteq> 0x212A) name"
    by (simp only: list_all_iff)
next
  assume "list_all (\<lambda>u. u \<noteq> 0x0130 \<and> u \<noteq> 0x212A) name"
  then have "\<forall>u \<in> set name. u \<noteq> 0x0130 \<and> u \<noteq> 0x212A"
    by (simp only: list_all_iff)
  then show "sanitizeFilename_replace_first name = sanitizeFilename_stated name"
    by (rule replace_first_eq_stated)
qed

text \<open>The result has no run of underscores, and keeps the code units of the class in their order.\<close>

lemma collapse_runs_head: "\<exists>r. collapse_runs (u # us) = u # r"
  by (induction us arbitrary: u) auto

lemma collapse_runs_no_run: "\<not> underscore_run (collapse_runs s)"
proof (induction s rule: collapse_runs.induct)
  case 1
  show ?case by simp
next
  case (2 u)
  show ?case by simp
next
  case (3 u v us)
  obtain r where r: "collapse_runs (v # us) = v # r"
    using collapse_runs_head by blast
  show ?case
  proof (cases "u = LOW_LINE \<and> v = LOW_LINE")
    case True
    with 3 show ?thesis by simp
  next
    case False
    then have c: "collapse_runs (u # v # us) = u # v # r"
      using r by auto
    from 3 False have "\<not> underscore_run (v # r)"
      by (simp add: r)
    with False show ?thesis
      unfolding c by simp
  qed
qed

lemma underscore_run_map:
  assumes "\<And>u. f u = LOW_LINE \<longleftrightarrow> u = LOW_LINE"
  shows "underscore_run (map f s) = underscore_run s"
  by (induction s rule: underscore_run.induct) (simp_all add: assms)

lemma sanitizeFilename_utf16_no_run: "\<not> underscore_run (sanitizeFilename_utf16 name)"
  by (simp only: sanitizeFilename_utf16_replace_first sanitizeFilename_replace_first_def
        underscore_run_map [of ascii_lower, OF ascii_lower_LOW_LINE] collapse_runs_no_run
        not_False_eq_True)

lemma sanitizeFilename_utf16_kept:
  "filter (\<lambda>u. u \<noteq> LOW_LINE) (sanitizeFilename_utf16 name) = map ascii_lower (filter name_unit name)"
proof -
  have p: "\<not> (\<lambda>u. u \<noteq> LOW_LINE) LOW_LINE"
    by simp
  have n: "\<not> name_unit LOW_LINE"
    by (simp add: name_unit_def LOW_LINE_def)
  have "filter (\<lambda>u. u \<noteq> LOW_LINE) (sanitizeFilename_utf16 name)
        = map ascii_lower (filter (\<lambda>u. u \<noteq> LOW_LINE)
            (collapse_runs (map (\<lambda>u. if name_unit u then u else LOW_LINE) name)))"
    by (simp add: sanitizeFilename_utf16_replace_first sanitizeFilename_replace_first_def
          filter_map comp_def ascii_lower_LOW_LINE)
  also have "filter (\<lambda>u. u \<noteq> LOW_LINE) (collapse_runs (map (\<lambda>u. if name_unit u then u else LOW_LINE) name))
        = filter (\<lambda>u. u \<noteq> LOW_LINE) (map (\<lambda>u. if name_unit u then u else LOW_LINE) name)"
    by (rule filter_collapse_runs [of "\<lambda>u. u \<noteq> LOW_LINE", OF p])
  also have "\<dots> = filter name_unit name"
    using n by (induction name) auto
  finally show ?thesis .
qed

text \<open>
  Claim C7, as the specification states it, fails. The function does not lowercase first:
  it replaces every code unit outside \<open>[a-zA-Z0-9.-]\<close> and lowercases what is left. The
  Kelvin sign \<open>U+212A\<close>, whose lower case is \<open>k\<close>, and the capital I with dot above
  \<open>U+0130\<close>, whose lower case is \<open>i\<close> followed by \<open>U+0307\<close>, are replaced by an underscore:
  the name \<open>U+212A\<close>\<open>.jpg\<close> gives \<open>_.jpg\<close> where the stated wording gives \<open>k.jpg\<close>, and
  \<open>U+0130\<close>\<open>stanbul.jpg\<close> gives \<open>_stanbul.jpg\<close> where the stated wording gives
  \<open>i_stanbul.jpg\<close>.
\<close>

theorem sanitizeFilename_replaces_before_lowercasing:
  "sanitizeFilename_utf16 (0x212A # utf16 ''.jpg'') = utf16 ''_.jpg''
   \<and> sanitizeFilename_stated (0x212A # utf16 ''.jpg'') = utf16 ''k.jpg''
   \<and> sanitizeFilename_utf16 (0x212A # utf16 ''.jpg'') \<noteq> sanitizeFilename_stated (0x212A # utf16 ''.jpg'')
   \<and> sanitizeFilename_utf16 (0x0130 # utf16 ''stanbul.jpg'') = utf16 ''_stanbul.jpg''
   \<and> sanitizeFilename_stated (0x0130 # utf16 ''stanbul.jpg'') = utf16 ''i_stanbul.jpg''
   \<and> sanitizeFilename_utf16 (0x0130 # utf16 ''stanbul.jpg'')
       \<noteq> sanitizeFilename_stated (0x0130 # utf16 ''stanbul.jpg'')"
  by code_simp

text \<open>
  Claim C7, amended. For every name, a sequence of UTF-16 code units, \<open>sanitizeFilename\<close>
  returns the name in which every code unit outside \<open>[a-zA-Z0-9.-]\<close> has become an
  underscore, every run of two or more underscores has then collapsed to one, and the
  capitals \<open>A\<close> to \<open>Z\<close> have then been lowercased. The result has no two neighbouring
  underscores, and without its underscores it is the code units of the name that are in
  the class, in their order, with the capitals lowercased. It is the lowercased name in
  which every character outside \<open>[a-z0-9.-]\<close> has become an underscore and every run has
  collapsed, exactly when the name contains neither \<open>U+0130\<close> nor \<open>U+212A\<close>. In particular
  \<open>My File!!.JPG\<close> gives \<open>my_file_.jpg\<close>, the empty name gives the empty name,
  \<open>a  b  c.jpg\<close> with its two runs of two spaces gives \<open>a_b_c.jpg\<close>, and a non-empty name
  with no code unit in \<open>[a-zA-Z0-9.-]\<close> gives a single underscore.
\<close>

theorem sanitizeFilename_replace_collapse_lowercase:
  "sanitizeFilename_utf16 name = sanitizeFilename_replace_first name
   \<and> \<not> underscore_run (sanitizeFilename_utf16 name)
   \<and> filter (\<lambda>u. u \<noteq> LOW_LINE) (sanitizeFilename_utf16 name) = map ascii_lower (filter name_unit name)
   \<and> (sanitizeFilename_utf16 name = sanitizeFilename_stated name
        \<longleftrightarrow> list_all (\<lambda>u. u \<noteq> 0x0130 \<and> u \<noteq> 0x212A) name)
   \<and> sanitizeFilename_utf16 (utf16 ''My File!!.JPG'') = utf16 ''my_file_.jpg''
   \<and> sanitizeFilename_utf16 [] = []
   \<and> sanitizeFilename_utf16 (utf16 ''a  b  c.jpg'') = utf16 ''a_b_c.jpg''
   \<and> (name \<noteq> [] \<and> list_all (\<lambda>u. \<not> name_unit u) name \<longrightarrow> sanitizeFilename_utf16 name = [LOW_LINE])"
proof (intro conjI impI)
  show "sanitizeFilename_utf16 name = sanitizeFilename_replace_first name"
    by (rule sanitizeFilename_utf16_replace_first)
  show "\<not> underscore_run (sanitizeFilename_utf16 name)"
    by (rule sanitizeFilename_utf16_no_run)
  show "filter (\<lambda>u. u \<noteq> LOW_LINE) (sanitizeFilename_utf16 name) = map ascii_lower (filter name_unit name)"
    by (rule sanitizeFilename_utf16_kept)
  show "sanitizeFilename_utf16 name = sanitizeFilename_stated name
        \<longleftrightarrow> list_all (\<lambda>u. u \<noteq> 0x0130 \<and> u \<noteq> 0x212A) name"
    by (simp only: sanitizeFilename_utf16_replace_first replace_first_eq_stated_iff)
  show "sanitizeFilename_utf16 (utf16 ''My File!!.JPG'') = utf16 ''my_file_.jpg''"
    by code_simp
  show "sanitizeFilename_utf16 [] = []"
    by code_simp
  show "sanitizeFilename_utf16 (utf16 ''a  b  c.jpg'') = utf16 ''a_b_c.jpg''"
    by code_simp
  show "sanitizeFilename_utf16 name = [LOW_LINE]"
    if "name \<noteq> [] \<and> list_all (\<lambda>u. \<not> name_unit u) name"
    using that by (simp add: sanitizeFilename_utf16_all_special)
qed

theorem sanitizeFilename_replace_collapse_lowercase_witness:
  "utf16 ''!@#$%^&*()'' \<noteq> [] \<and> list_all (\<lambda>u. \<not> name_unit u) (utf16 ''!@#$%^&*()'')
   \<and> sanitizeFilename_utf16 (utf16 ''!@#$%^&*()'') = [LOW_LINE]
   \<and> list_all (\<lambda>u. u \<noteq> 0x0130 \<and> u \<noteq> 0x212A) (utf16 ''!@#$%^&*()'')
   \<and> sanitizeFilename_stated (utf16 ''!@#$%^&*()'') = [LOW_LINE]"
proof -
  have special: "utf16 ''!@#$%^&*()'' \<noteq> [] \<and> list_all (\<lambda>u. \<not> name_unit u) (utf16 ''!@#$%^&*()'')"
    by code_simp
  have plain: "list_all (\<lambda>u. u \<noteq> 0x0130 \<and> u \<noteq> 0x212A) (utf16 ''!@#$%^&*()'')"
    by code_simp
  have all: "(sanitizeFilename_utf16 (utf16 ''!@#$%^&*()'') = sanitizeFilename_stated (utf16 ''!@#$%^&*()'')
               \<longleftrightarrow> list_all (\<lambda>u. u \<noteq> 0x0130 \<and> u \<noteq> 0x212A) (utf16 ''!@#$%^&*()''))
             \<and> (utf16 ''!@#$%^&*()'' \<noteq> [] \<and> list_all (\<lambda>u. \<not> name_unit u) (utf16 ''!@#$%^&*()'')
                  \<longrightarrow> sanitizeFilename_utf16 (utf16 ''!@#$%^&*()'') = [LOW_LINE])"
    using sanitizeFilename_replace_collapse_lowercase [of "utf16 ''!@#$%^&*()''"]
    by (intro conjI) (elim conjE, assumption)+
  from all special have one: "sanitizeFilename_utf16 (utf16 ''!@#$%^&*()'') = [LOW_LINE]"
    by (elim conjE impE) (intro conjI, assumption+)
  from all plain have same: "sanitizeFilename_utf16 (utf16 ''!@#$%^&*()'') = sanitizeFilename_stated (utf16 ''!@#$%^&*()'')"
    by (elim conjE) (erule iffD2, assumption)
  have "sanitizeFilename_stated (utf16 ''!@#$%^&*()'') = [LOW_LINE]"
    by (rule trans [OF same [symmetric] one])
  with special plain one show ?thesis
    by (intro conjI) (elim conjE, assumption)+
qed

section \<open>Properties of the URLs and the cache keys\<close>

text \<open>
  Claim C9. For every image key, the \<open>medium\<close> URL of \<open>generateResponsiveUrls\<close> is the URL
  \<open>generateThumbnailUrl\<close> gives for width 800 and quality 90, and both are
  \<open>/cdn-cgi/image/width=800,quality=90/api/images/<key>\<close>.
\<close>

theorem medium_url_is_thumbnail_pattern:
  "medium (generateResponsiveUrls key) = generateThumbnailUrl key (Some (Num 800)) (Some (Num 90))
   \<and> generateThumbnailUrl key (Some (Num 800)) (Some (Num 90))
       = ''/cdn-cgi/image/width=800,quality=90/api/images/'' @ key"
  by (simp add: generateResponsiveUrls_def generateThumbnailUrl_def digits_of.simps digit_char_def Let_def)

lemma join_Cons: "ps \<noteq> [] \<Longrightarrow> join sep (x # ps) = x @ sep @ join sep ps"
  by (cases ps) simp_all

lemma option_parts_nonempty: "option_parts options \<noteq> []"
  by (simp add: option_parts_def)

lemma word_dot_hyphen_underscore: "word_dot_hyphen CHR ''_''"
  by (simp add: word_dot_hyphen_def)

lemma sanitize_key_fixpoint: "sanitize_key k = k \<longleftrightarrow> list_all word_dot_hyphen k"
  unfolding sanitize_key_def by (induction k) (auto simp: word_dot_hyphen_underscore)

lemmas cache_key_eval =
  createCacheKey_handler_def createCacheKey_adapter_def option_parts_def sanitize_key_def
  word_dot_hyphen_def lower_letters_def upper_letters_def decimal_digits_def sample_options_def
  num_or_auto_def str_or_def truthy_str_def digits_of.simps digit_char_def

text \<open>
  Claim C1, as the specification states it, fails: for the stored key
  \<open>25thAnniversary/a.jpg\<close> the serving handler computes the cache key
  \<open>25thAnniversary_a.jpg_800_auto_90_webp_wm\<close> and the adapter computes
  \<open>25thAnniversary/a.jpg_800_auto_90_webp_wm\<close>.
\<close>

theorem cache_keys_differ:
  "createCacheKey_handler ''25thAnniversary/a.jpg'' sample_options
     = ''25thAnniversary_a.jpg_800_auto_90_webp_wm''
   \<and> createCacheKey_adapter ''25thAnniversary/a.jpg'' sample_options
     = ''25thAnniversary/a.jpg_800_auto_90_webp_wm''
   \<and> createCacheKey_handler ''25thAnniversary/a.jpg'' sample_options
     \<noteq> createCacheKey_adapter ''25thAnniversary/a.jpg'' sample_options"
  by (simp add: cache_key_eval)

text \<open>
  Claim C1, amended. For every key and every options value, the serving handler's cache key
  is the adapter's cache key of the sanitized key (every character outside
  \<open>[A-Za-z0-9_.-]\<close> replaced by an underscore) with the same options; the two functions
  agree on the same inputs exactly when the key has no character outside that class.
\<close>

theorem handler_cache_key_is_adapter_key_of_sanitized:
  "createCacheKey_handler k options = createCacheKey_adapter (sanitize_key k) options
   \<and> (createCacheKey_handler k options = createCacheKey_adapter k options
        \<longleftrightarrow> list_all word_dot_hyphen k)"
  by (simp add: createCacheKey_handler_def createCacheKey_adapter_def join_Cons
        option_parts_nonempty sanitize_key_fixpoint)

section \<open>Properties of the listing handler\<close>

lemma Math_min_capped: "\<not> js_gt (Math_min v (Num c)) (Num c) \<and> (\<forall>n. Math_min v (Num c) = Num n \<longrightarrow> n \<le> c)"
  by (cases v) auto

lemmas parseInt_eval =
  parseInt_def strip_sign_def strip_radix_def is_white_space_def digit_value_def

lemma parseInt_50: "parseInt ''50'' = Num 50"
  by (simp add: parseInt_eval)

lemmas list_eval =
  onRequestGet_list_def handleCORS_def listOptions_def searchParams_get_def str_or_def
  truthy_str_def get_request_def EVENT_PREFIX_def Let_def

text \<open>
  Claim C8. Whenever the listing handler calls the object store, the limit it passes is 50
  if the request has no \<open>limit\<close> parameter, and for every request the limit passed does
  not exceed 100: it is never greater than 100, and when it is a number it is at most 100.
\<close>

theorem list_limit_default_and_cap:
  assumes "onRequestGet_list req bucket_configured = CallsList opts"
  shows "(searchParams_get req ''limit'' = None \<longrightarrow> lo_limit opts = Num 50)
         \<and> \<not> js_gt (lo_limit opts) (Num 100)
         \<and> (\<forall>n. lo_limit opts = Num n \<longrightarrow> n \<le> 100)"
proof -
  have opts: "opts = listOptions req"
    using assms by (auto simp: onRequestGet_list_def split: option.splits if_splits)
  have "searchParams_get req ''limit'' = None \<longrightarrow> lo_limit (listOptions req) = Num 50"
    by (simp add: listOptions_def str_or_def parseInt_50 Let_def)
  moreover have "\<not> js_gt (lo_limit (listOptions req)) (Num 100)
                 \<and> (\<forall>n. lo_limit (listOptions req) = Num n \<longrightarrow> n \<le> 100)"
    using Math_min_capped [of _ 100] by (simp add: listOptions_def Let_def)
  ultimately show ?thesis
    using opts by blast
qed

theorem list_limit_default_and_cap_witness:
  "onRequestGet_list (get_request None []) True = CallsList (listOptions (get_request None []))
   \<and> searchParams_get (get_request None []) ''limit'' = None
   \<and> lo_limit (listOptions (get_request None [])) = Num 50
   \<and> onRequestGet_list (get_request None [(''limit'', ''150'')]) True
       = CallsList (listOptions (get_request None [(''limit'', ''150'')]))
   \<and> lo_limit (listOptions (get_request None [(''limit'', ''150'')])) = Num 100"
  using list_limit_default_and_cap [of "get_request None []" True "listOptions (get_request None [])"]
  by (simp add: list_eval parseInt_eval)

section \<open>Properties of \<open>validateFile\<close>\<close>

lemma byte_at_take: "i < n \<Longrightarrow> byte_at (take n xs) i = byte_at xs i"
  by (auto simp: byte_at_def)

lemma take_snoc_byte:
  assumes "length ys = n"
  shows "take (Suc n) xs = ys @ [y] \<longleftrightarrow> take n xs = ys \<and> byte_at xs n = Some y"
proof (cases "n < length xs")
  case True
  then show ?thesis
    by (auto simp: take_Suc_conv_app_nth byte_at_def)
next
  case False
  then have "length (take (Suc n) xs) \<le> n"
    by simp
  moreover have "length (ys @ [y]) = Suc n"
    using assms by simp
  ultimately have "take (Suc n) xs \<noteq> ys @ [y]"
    by (metis Suc_n_not_le_n)
  with False show ?thesis
    by (simp add: byte_at_def)
qed

lemma match1: "take 1 xs = [a] \<longleftrightarrow> byte_at xs 0 = Some a"
  using take_snoc_byte [of "[]" 0 xs a] by simp

lemma match2: "take 2 xs = [a, b] \<longleftrightarrow> byte_at xs 0 = Some a \<and> byte_at xs 1 = Some b"
  using take_snoc_byte [of "[a]" 1 xs b] match1 [of xs a] by (simp add: eval_nat_numeral)

lemma match3:
  "take 3 xs = [a, b, c] \<longleftrightarrow> byte_at xs 0 = Some a \<and> byte_at xs 1 = Some b \<and> byte_at xs 2 = Some c"
  using take_snoc_byte [of "[a, b]" 2 xs c] match2 [of xs a b] by (simp add: eval_nat_numeral)

lemma match4:
  "take 4 xs = [a, b, c, d] \<longleftrightarrow>
     byte_at xs 0 = Some a \<and> byte_at xs 1 = Some b \<and> byte_at xs 2 = Some c \<and> byte_at xs 3 = Some d"
  using take_snoc_byte [of "[a, b, c]" 3 xs d] match3 [of xs a b c] by (simp add: eval_nat_numeral)


lemma match8:
  "take 8 xs = [a, b, c, d, e, f, g, h] \<longleftrightarrow>
     byte_at xs 0 = Some a \<and> byte_at xs 1 = Some b \<and> byte_at xs 2 = Some c \<and> byte_at xs 3 = Some d
     \<and> byte_at xs 4 = Some e \<and> byte_at xs 5 = Some f \<and> byte_at xs 6 = Some g \<and> byte_at xs 7 = Some h"
proof -
  have 5: "take 5 xs = [a, b, c, d, e] \<longleftrightarrow> take 4 xs = [a, b, c, d] \<and> byte_at xs 4 = Some e"
    using take_snoc_byte [of "[a, b, c, d]" 4 xs e] by (simp add: eval_nat_numeral)
  have 6: "take 6 xs = [a, b, c, d, e, f] \<longleftrightarrow> take 5 xs = [a, b, c, d, e] \<and> byte_at xs 5 = Some f"
    using take_snoc_byte [of "[a, b, c, d, e]" 5 xs f] by (simp add: eval_nat_numeral)
  have 7: "take 7 xs = [a, b, c, d, e, f, g] \<longleftrightarrow> take 6 xs = [a, b, c, d, e, f] \<and> byte_at xs 6 = Some g"
    using take_snoc_byte [of "[a, b, c, d, e, f]" 6 xs g] by (simp add: eval_nat_numeral)
  have 8: "take 8 xs = [a, b, c, d, e, f, g, h] \<longleftrightarrow> take 7 xs = [a, b, c, d, e, f, g] \<and> byte_at xs 7 = Some h"
    using take_snoc_byte [of "[a, b, c, d, e, f, g]" 7 xs h] by (simp add: eval_nat_numeral)
  show ?thesis
    unfolding 8 7 6 5 match4 by blast
qed


lemma isValidImageFile_spec: "isValidImageFile f = magic_bytes_spec f"
proof (cases "file_read_fails f 0 8")
  case True
  then show ?thesis
    by (simp add: isValidImageFile_def magic_bytes_spec_def slice_arrayBuffer_def)
next
  case False
  let ?bs = "take 8 (file_bytes f)"
  let ?ws = "take 4 (drop 8 (file_bytes f))"
  have s: "slice_arrayBuffer f 0 8 = Inr ?bs"
    using False by (simp add: slice_arrayBuffer_def)
  have j: "(byte_at ?bs 0 = Some 0xff \<and> byte_at ?bs 1 = Some 0xd8 \<and> byte_at ?bs 2 = Some 0xff)
           \<longleftrightarrow> take 3 (file_bytes f) = JPEG_MAGIC"
    unfolding JPEG_MAGIC_def match3 by (simp add: byte_at_take)
  have p: "(byte_at ?bs 0 = Some 0x89 \<and> byte_at ?bs 1 = Some 0x50 \<and> byte_at ?bs 2 = Some 0x4e
            \<and> byte_at ?bs 3 = Some 0x47 \<and> byte_at ?bs 4 = Some 0x0d \<and> byte_at ?bs 5 = Some 0x0a
            \<and> byte_at ?bs 6 = Some 0x1a \<and> byte_at ?bs 7 = Some 0x0a)
           \<longleftrightarrow> take 8 (file_bytes f) = PNG_MAGIC"
    unfolding PNG_MAGIC_def match8 by (simp add: byte_at_take)
  have r: "(byte_at ?bs 0 = Some 0x52 \<and> byte_at ?bs 1 = Some 0x49 \<and> byte_at ?bs 2 = Some 0x46
            \<and> byte_at ?bs 3 = Some 0x46)
           \<longleftrightarrow> take 4 (file_bytes f) = RIFF_MAGIC"
    unfolding RIFF_MAGIC_def match4 by (simp add: byte_at_take)
  have w: "\<And>ws. (byte_at ws 0 = Some 0x57 \<and> byte_at ws 1 = Some 0x45 \<and> byte_at ws 2 = Some 0x42
            \<and> byte_at ws 3 = Some 0x50)
           \<longleftrightarrow> take 4 ws = WEBP_MAGIC"
    unfolding WEBP_MAGIC_def match4 by simp
  have v: "isValidImageFile f =
             (if take 3 (file_bytes f) = JPEG_MAGIC then True
              else if take 8 (file_bytes f) = PNG_MAGIC then True
              else if take 4 (file_bytes f) = RIFF_MAGIC
                   then (case slice_arrayBuffer f 8 12 of
                           Inl _ \<Rightarrow> False
                         | Inr ws \<Rightarrow> if take 4 ws = WEBP_MAGIC then True else False)
                   else False)"
    unfolding isValidImageFile_def s sum.case j p r w ..
  show ?thesis
  proof (cases "file_read_fails f 8 12")
    case True
    with False show ?thesis
      unfolding v by (simp add: magic_bytes_spec_def slice_arrayBuffer_def)
  next
    case no_fail: False
    with False show ?thesis
      unfolding v by (simp add: magic_bytes_spec_def slice_arrayBuffer_def)
  qed
qed


text \<open>
  Claim C6. For every file whose size and declared type are allowed, \<open>validateFile\<close>
  accepts the file exactly when its content can be read and starts with \<open>FF D8 FF\<close>, or
  with \<open>89 50 4E 47 0D 0A 1A 0A\<close>, or with \<open>RIFF\<close> followed by \<open>WEBP\<close> at offset 8; in
  every other case, a failing read of the leading bytes included, it returns the one
  generic message that the file does not appear to be a valid image.
\<close>

theorem validateFile_magic_bytes:
  assumes "\<not> js_gt (Num (int (file_size f))) (maxFileSize c)"
    and "file_type f \<in> set (allowedTypes c)"
  shows "validateFile fmt f c
           = (if magic_bytes_spec f then \<lparr> valid = True, error = None \<rparr> else not_an_image)
         \<and> (file_read_fails f 0 8 \<longrightarrow> validateFile fmt f c = not_an_image)"
proof -
  have "validateFile fmt f c
          = (if magic_bytes_spec f then \<lparr> valid = True, error = None \<rparr> else not_an_image)"
    using assms by (simp add: validateFile_def isValidImageFile_spec not_an_image_def)
  moreover have "file_read_fails f 0 8 \<longrightarrow> \<not> magic_bytes_spec f"
    by (simp add: magic_bytes_spec_def)
  ultimately show ?thesis
    by simp
qed

theorem validateFile_magic_bytes_witness:
  "\<not> js_gt (Num (int (file_size (sample_file ''a.jpg'' ''image/jpeg'' jpeg_content))))
        (maxFileSize DEFAULT_CONSTRAINTS)
   \<and> file_type (sample_file ''a.jpg'' ''image/jpeg'' jpeg_content) \<in> set (allowedTypes DEFAULT_CONSTRAINTS)
   \<and> validateFile print_bytes (sample_file ''a.jpg'' ''image/jpeg'' jpeg_content) DEFAULT_CONSTRAINTS
       = \<lparr> valid = True, error = None \<rparr>
   \<and> validateFile print_bytes (sample_file ''w.webp'' ''image/webp'' webp_content) DEFAULT_CONSTRAINTS
       = \<lparr> valid = True, error = None \<rparr>
   \<and> validateFile print_bytes (sample_file ''t.png'' ''image/png'' text_content) DEFAULT_CONSTRAINTS
       = not_an_image
   \<and> validateFile print_bytes
        ((sample_file ''a.jpg'' ''image/jpeg'' jpeg_content) \<lparr> file_read_fails := (\<lambda>a b. True) \<rparr>)
        DEFAULT_CONSTRAINTS
       = not_an_image"
proof -
  let ?j = "sample_file ''a.jpg'' ''image/jpeg'' jpeg_content"
  let ?w = "sample_file ''w.webp'' ''image/webp'' webp_content"
  let ?t = "sample_file ''t.png'' ''image/png'' text_content"
  let ?u = "?j \<lparr> file_read_fails := (\<lambda>a b. True) \<rparr>"
  have sj: "\<not> js_gt (Num (int (file_size ?j))) (maxFileSize DEFAULT_CONSTRAINTS)"
    and tj: "file_type ?j \<in> set (allowedTypes DEFAULT_CONSTRAINTS)"
    and mj: "magic_bytes_spec ?j"
    by code_simp+
  have sw: "\<not> js_gt (Num (int (file_size ?w))) (maxFileSize DEFAULT_CONSTRAINTS)"
    and tw: "file_type ?w \<in> set (allowedTypes DEFAULT_CONSTRAINTS)"
    and mw: "magic_bytes_spec ?w"
    by code_simp+
  have st: "\<not> js_gt (Num (int (file_size ?t))) (maxFileSize DEFAULT_CONSTRAINTS)"
    and tt: "file_type ?t \<in> set (allowedTypes DEFAULT_CONSTRAINTS)"
    and mt: "\<not> magic_bytes_spec ?t"
    by code_simp+
  have su: "\<not> js_gt (Num (int (file_size ?u))) (maxFileSize DEFAULT_CONSTRAINTS)"
    and tu: "file_type ?u \<in> set (allowedTypes DEFAULT_CONSTRAINTS)"
    and mu: "\<not> magic_bytes_spec ?u"
    by code_simp+
  show ?thesis
    using validateFile_magic_bytes [OF sj tj, of print_bytes] validateFile_magic_bytes [OF sw tw, of print_bytes]
      validateFile_magic_bytes [OF st tt, of print_bytes] validateFile_magic_bytes [OF su tu, of print_bytes]
      sj tj mj mw mt mu
    by simp
qed

section \<open>Properties of \<open>optimizeForWeb\<close>\<close>

lemma qualities_below_95: "95 # qualities_below 95 = quality_schedule"
  by code_simp

lemma backoff_spec_Cons: "backoff_spec fits (q # qs) = q # tl (backoff_spec fits (q # qs))"
  by simp

lemma backoff_spec_nonempty: "qs \<noteq> [] \<Longrightarrow> backoff_spec fits qs \<noteq> []"
  by (cases qs) auto

lemma optimize_loop_backoff:
  assumes "\<forall>q' \<in> set (qualities_below q). render_jpeg api d q' = Inr (resp q')"
    and "20 \<le> q" and "r = resp q"
  shows "optimize_loop api d t q r
         = (tl (backoff_spec (\<lambda>q. within_budget (resp q) t) (q # qualities_below q)),
            Inr (resp (last (backoff_spec (\<lambda>q. within_budget (resp q) t) (q # qualities_below q)))))"
  using assms
proof (induction api d t q r rule: optimize_loop.induct)
  case (1 api d t q r)
  let ?fits = "\<lambda>q. within_budget (resp q) t"
  show ?case
  proof (cases "?fits q \<or> q = 20")
    case True
    then show ?thesis
      using "1.prems" by (subst optimize_loop.simps) (auto simp: qualities_below.simps [of 20])
  next
    case False
    define q2 where "q2 = (if q - 10 < 20 then 20 else q - 10)"
    have q: "20 < q"
      using False "1.prems" by simp
    have below: "qualities_below q = q2 # qualities_below q2"
      using q by (subst qualities_below.simps) (simp add: q2_def)
    have r: "render_jpeg api d q2 = Inr (resp q2)"
      using "1.prems"(1) below by simp
    have q2: "20 \<le> q2"
      by (simp add: q2_def)
    have sub: "\<forall>q' \<in> set (qualities_below q2). render_jpeg api d q' = Inr (resp q')"
      using "1.prems"(1) below by simp
    have IH: "optimize_loop api d t q2 (resp q2)
         = (tl (backoff_spec ?fits (q2 # qualities_below q2)),
            Inr (resp (last (backoff_spec ?fits (q2 # qualities_below q2)))))"
    proof (rule "1.IH" [of "q - 10" q2 "resp q2"])
      show "20 \<le> q" using q by simp
      show "\<not> within_budget r t" using False "1.prems"(3) by simp
      show "q \<noteq> 20" using q by simp
      show "q - 10 = q - 10" ..
      show "q2 = (if q - 10 < 20 then 20 else q - 10)" by (rule q2_def)
      show "render_jpeg api d q2 = Inr (resp q2)" by (rule r)
      show "\<forall>q' \<in> set (qualities_below q2). render_jpeg api d q' = Inr (resp q')" by (rule sub)
      show "20 \<le> q2" by (rule q2)
      show "resp q2 = resp q2" ..
    qed
    have "optimize_loop api d t q r
          = (q2 # tl (backoff_spec ?fits (q2 # qualities_below q2)),
             Inr (resp (last (backoff_spec ?fits (q2 # qualities_below q2)))))"
      using False q r IH "1.prems"(3) by (subst optimize_loop.simps) (simp add: q2_def Let_def)
    also have "q2 # tl (backoff_spec ?fits (q2 # qualities_below q2)) = backoff_spec ?fits (q2 # qualities_below q2)"
      by simp
    finally show ?thesis
      using False below backoff_spec_nonempty [of "q2 # qualities_below q2" ?fits] by simp
  qed
qed


lemma backoff_spec_shape:
  "qs \<noteq> [] \<Longrightarrow>
     hd (backoff_spec fits qs) = hd qs
     \<and> length (backoff_spec fits qs) \<le> length qs
     \<and> (\<forall>q \<in> set (butlast (backoff_spec fits qs)). \<not> fits q)
     \<and> (fits (last (backoff_spec fits qs)) \<or> last (backoff_spec fits qs) = last qs)"
proof (induction qs)
  case Nil
  then show ?case by simp
next
  case (Cons q qs)
  show ?case
  proof (cases "qs = []")
    case True
    then show ?thesis by simp
  next
    case False
    then have ne: "backoff_spec fits qs \<noteq> []"
      by (rule backoff_spec_nonempty)
    show ?thesis
    proof (cases "fits q")
      case True
      then show ?thesis by simp
    next
      case nofit: False
      with Cons.IH [OF False] ne False show ?thesis
        by simp
    qed
  qed
qed

lemma quality_schedule_ends:
  "quality_schedule \<noteq> [] \<and> hd quality_schedule = 95 \<and> last quality_schedule = 20
   \<and> length quality_schedule = 9"
  by (simp add: quality_schedule_def)

lemma optimize_loop_requests_bounded:
  "length (fst (optimize_loop api d t q r)) \<le> length (qualities_below q)
   \<and> set (fst (optimize_loop api d t q r)) \<subseteq> set (qualities_below q)"
proof (induction api d t q r rule: optimize_loop.induct)
  case (1 api d t q r)
  show ?case
  proof (cases "20 \<le> q \<and> \<not> within_budget r t \<and> q \<noteq> 20")
    case False
    then show ?thesis
      by (subst (1 2) optimize_loop.simps) auto
  next
    case True
    define q2 where "q2 = (if q - 10 < 20 then 20 else q - 10)"
    have below: "qualities_below q = q2 # qualities_below q2"
      using True by (subst qualities_below.simps) (simp add: q2_def)
    have step: "optimize_loop api d t q r
                = (case render_jpeg api d q2 of
                     Inl e \<Rightarrow> ([q2], Inl e)
                   | Inr r2 \<Rightarrow> (let (qs, res) = optimize_loop api d t q2 r2 in (q2 # qs, res)))"
      using True by (subst optimize_loop.simps) (simp add: q2_def Let_def cong: sum.case_cong)
    show ?thesis
    proof (cases "render_jpeg api d q2")
      case (Inl e)
      then show ?thesis
        unfolding step below by simp
    next
      case (Inr r2)
      have IH: "length (fst (optimize_loop api d t q2 r2)) \<le> length (qualities_below q2)
                \<and> set (fst (optimize_loop api d t q2 r2)) \<subseteq> set (qualities_below q2)"
        using "1.IH" [of "q - 10" q2 r2] True Inr by (simp add: q2_def)
      then show ?thesis
        unfolding step below Inr by (auto simp: split_beta)
    qed
  qed
qed

lemma optimizeForWeb_requests_bounded:
  "length (fst (optimizeForWeb imageData target env)) \<le> 9
   \<and> set (fst (optimizeForWeb imageData target env)) \<subseteq> set quality_schedule"
proof -
  have sched: "quality_schedule = 95 # qualities_below 95"
    by (rule qualities_below_95 [symmetric])
  have len: "length (qualities_below 95) = 8"
    by code_simp
  show ?thesis
    using optimize_loop_requests_bounded [of _ imageData _ 95] len
    unfolding sched
    by (auto simp: optimizeForWeb_def split_beta Let_def split: option.splits sum.splits)
qed

text \<open>
  Claim C5. \<open>optimizeForWeb\<close> is a total function: the loop terminates on every input,
  after at most nine requests, all at qualities of the schedule \<open>95, 85, ..., 25, 20\<close>.
  When the binding is present and the service answers each request of the schedule, the
  function requests quality 95 first and, while the result is over the target, the next
  quality of the schedule; it stops at the first result within budget or after quality 20,
  and returns the last result as a success, also when that result is still over the target.
\<close>

theorem optimizeForWeb_bounded_backoff:
  "length (fst (optimizeForWeb imageData target env)) \<le> 9
   \<and> set (fst (optimizeForWeb imageData target env)) \<subseteq> set quality_schedule
   \<and> (IMAGES env = Some api
        \<and> (\<forall>q \<in> set quality_schedule. render_jpeg api imageData q = Inr (resp q)) \<longrightarrow>
        (let fits = (\<lambda>q. within_budget (resp q) (case target of None \<Rightarrow> Num 500 | Some t \<Rightarrow> t));
             qs = backoff_spec fits quality_schedule
         in optimizeForWeb imageData target env = (qs, Inr (resp (last qs)))
            \<and> hd qs = 95
            \<and> (\<forall>q \<in> set (butlast qs). \<not> fits q)
            \<and> (fits (last qs) \<or> last qs = 20)))"
proof (intro conjI impI)
  show "length (fst (optimizeForWeb imageData target env)) \<le> 9"
    using optimizeForWeb_requests_bounded by blast
  show "set (fst (optimizeForWeb imageData target env)) \<subseteq> set quality_schedule"
    using optimizeForWeb_requests_bounded by blast
next
  assume a: "IMAGES env = Some api
             \<and> (\<forall>q \<in> set quality_schedule. render_jpeg api imageData q = Inr (resp q))"
  define t where "t = (case target of None \<Rightarrow> Num 500 | Some t \<Rightarrow> t)"
  define fits where "fits = (\<lambda>q. within_budget (resp q) t)"
  define qs where "qs = backoff_spec fits quality_schedule"
  have sched: "quality_schedule = 95 # qualities_below 95"
    by (rule qualities_below_95 [symmetric])
  have first: "render_jpeg api imageData 95 = Inr (resp 95)"
    using a by (simp add: quality_schedule_def)
  have rest: "\<forall>q' \<in> set (qualities_below 95). render_jpeg api imageData q' = Inr (resp q')"
    using a unfolding sched by simp
  have loop: "optimize_loop api imageData t 95 (resp 95)
              = (tl qs, Inr (resp (last qs)))"
    using optimize_loop_backoff [OF rest, of "resp 95" t] by (simp add: qs_def fits_def sched)
  have "qs = 95 # tl qs"
    unfolding qs_def sched by (rule backoff_spec_Cons)
  then have run: "optimizeForWeb imageData target env = (qs, Inr (resp (last qs)))"
    using a first loop by (simp add: optimizeForWeb_def t_def [symmetric])
  have shape: "hd qs = 95 \<and> (\<forall>q \<in> set (butlast qs). \<not> fits q)
               \<and> (fits (last qs) \<or> last qs = 20)"
    using backoff_spec_shape [of quality_schedule fits] quality_schedule_ends
    by (simp add: qs_def)
  from run shape
  show "(let fits = (\<lambda>q. within_budget (resp q) (case target of None \<Rightarrow> Num 500 | Some t \<Rightarrow> t));
             qs = backoff_spec fits quality_schedule
         in optimizeForWeb imageData target env = (qs, Inr (resp (last qs)))
            \<and> hd qs = 95
            \<and> (\<forall>q \<in> set (butlast qs). \<not> fits q)
            \<and> (fits (last qs) \<or> last qs = 20))"
    unfolding Let_def qs_def fits_def t_def by simp
qed

lemmas budget_eval =
  within_budget_def sized_response_def str_or_def truthy_str_def digits_of.simps digit_char_def
  parseInt_def strip_sign_def strip_radix_def is_white_space_def digit_value_def quality_schedule_def

lemma render_linear: "render_jpeg linear_service d q = Inr (sized_response q)"
  by (simp add: render_jpeg_def linear_service_def)

theorem optimizeForWeb_bounded_backoff_witness:
  "IMAGES (linear_env None) = Some linear_service
   \<and> list_all (\<lambda>q. render_jpeg linear_service [] q = Inr (sized_response q)) quality_schedule
   \<and> optimizeForWeb [] (Some (Num 500)) (linear_env None)
       = ([95, 85, 75, 65, 55, 45], Inr (sized_response 45))
   \<and> within_budget (sized_response 45) (Num 500)
   \<and> optimizeForWeb [] (Some (Num 100)) (linear_env None)
       = ([95, 85, 75, 65, 55, 45, 35, 25, 20], Inr (sized_response 20))
   \<and> \<not> within_budget (sized_response 20) (Num 100)"
proof -
  have env: "IMAGES (linear_env None) = Some linear_service"
    by (simp add: linear_env_def)
  have svc: "\<forall>q \<in> set quality_schedule. render_jpeg linear_service [] q = Inr (sized_response q)"
    by (simp add: render_linear)
  have q500: "backoff_spec (\<lambda>q. within_budget (sized_response q) (Num 500)) quality_schedule
              = [95, 85, 75, 65, 55, 45]"
    by (simp add: budget_eval)
  have q100: "backoff_spec (\<lambda>q. within_budget (sized_response q) (Num 100)) quality_schedule
              = [95, 85, 75, 65, 55, 45, 35, 25, 20]"
    by (simp add: budget_eval)
  have fit: "within_budget (sized_response 45) (Num 500)"
    and over: "\<not> within_budget (sized_response 20) (Num 100)"
    by (simp_all add: budget_eval)
  note at500 = optimizeForWeb_bounded_backoff
      [where env = "linear_env None" and api = linear_service and imageData = "[]" and resp = sized_response
         and target = "Some (Num 500)", THEN conjunct2, THEN conjunct2, THEN mp, OF conjI, OF env svc]
  note at100 = optimizeForWeb_bounded_backoff
      [where env = "linear_env None" and api = linear_service and imageData = "[]" and resp = sized_response
         and target = "Some (Num 100)", THEN conjunct2, THEN conjunct2, THEN mp, OF conjI, OF env svc]
  show ?thesis
    using at500 at100 env svc fit over
    by (simp add: Let_def q500 q100 list_all_iff)
qed

section \<open>Properties of \<open>processImage\<close> and its watermark step\<close>

lemma draw_logo_missing: "kv name = Inr None \<Longrightarrow> draw_logo api kv name opts p = Inr p"
  by (simp add: draw_logo_def)

lemma applyWatermarks_total:
  "applyWatermarks api kv p
   = Inr (case draw_logo api kv ''bbff-logo.png'' bbff_overlay p of
            Inl e \<Rightarrow> p
          | Inr p1 \<Rightarrow> (case draw_logo api kv ''hmb-logo.png'' hmb_overlay p1 of
                        Inl e \<Rightarrow> p1
                      | Inr p2 \<Rightarrow> p2))"
  by (simp add: applyWatermarks_def watermark_body_def split: sum.splits)

text \<open>
  Claim C4. With watermarking requested and the asset store bound, whatever the asset store
  and the drawing call do (a missing logo, an error while fetching a logo, while wrapping
  it or while compositing it), \<open>applyWatermarks\<close> returns a processor: the one it was
  given, or that with the logos drawn so far. When the steps outside the watermark step
  succeed (input, resize, output), \<open>processImage\<close> returns the response built from that
  processor and does not raise. A missing logo is skipped.
\<close>

theorem processImage_survives_watermark_failure:
  assumes "IMAGES env = Some api"
    and "BRANDING_ASSETS env = Some kv"
    and "watermark options = Some True"
    and "img_input api imageData = Inr p0"
    and "resize_step api options p0 = Inr p1"
    and "\<forall>p. img_respond api p (output_options_of options) = Resolves (resp p)"
  shows "(let marked = (case draw_logo api kv ''bbff-logo.png'' bbff_overlay p1 of
                          Inl e \<Rightarrow> p1
                        | Inr q1 \<Rightarrow> (case draw_logo api kv ''hmb-logo.png'' hmb_overlay q1 of
                                      Inl e \<Rightarrow> q1
                                    | Inr q2 \<Rightarrow> q2))
          in applyWatermarks api kv p1 = Inr marked
             \<and> processImage imageData options env = Inr (resp marked))
         \<and> (kv ''bbff-logo.png'' = Inr None \<longrightarrow>
              draw_logo api kv ''bbff-logo.png'' bbff_overlay p1 = Inr p1)
         \<and> (kv ''bbff-logo.png'' = Inr None \<and> kv ''hmb-logo.png'' = Inr None \<longrightarrow>
              processImage imageData options env = Inr (resp p1))"
proof -
  define marked where
    "marked = (case draw_logo api kv ''bbff-logo.png'' bbff_overlay p1 of
                 Inl e \<Rightarrow> p1
               | Inr q1 \<Rightarrow> (case draw_logo api kv ''hmb-logo.png'' hmb_overlay q1 of
                             Inl e \<Rightarrow> q1
                           | Inr q2 \<Rightarrow> q2))"
  have aw: "applyWatermarks api kv p1 = Inr marked"
    unfolding marked_def by (rule applyWatermarks_total)
  then have step: "watermark_step env api options p1 = Inr marked"
    using assms(2,3) by (simp add: watermark_step_def)
  have run: "processImage imageData options env = Inr (resp marked)"
    using assms(1,4,5,6) step by (simp add: processImage_def)
  have skip: "kv ''bbff-logo.png'' = Inr None \<and> kv ''hmb-logo.png'' = Inr None \<longrightarrow> marked = p1"
    by (simp add: marked_def draw_logo_missing)
  from aw run skip show ?thesis
    unfolding Let_def marked_def [symmetric] by (simp add: draw_logo_missing)
qed

theorem processImage_survives_watermark_failure_witness:
  "IMAGES (linear_env (Some failing_store)) = Some linear_service
   \<and> BRANDING_ASSETS (linear_env (Some failing_store)) = Some failing_store
   \<and> watermark sample_options = Some True
   \<and> img_input linear_service [] = Inr 0
   \<and> resize_step linear_service sample_options 0 = Inr 90
   \<and> draw_logo linear_service failing_store ''bbff-logo.png'' bbff_overlay 90
       = Inl (Thrown ''Error: KV unavailable'')
   \<and> applyWatermarks linear_service failing_store 90 = Inr 90
   \<and> processImage [] sample_options (linear_env (Some failing_store)) = Inr (sized_response 90)
   \<and> draw_logo linear_service one_logo_store ''hmb-logo.png'' hmb_overlay 90
       = Inl (Thrown ''Error: draw failed'')
   \<and> processImage [] sample_options (linear_env (Some one_logo_store)) = Inr (sized_response 90)
   \<and> processImage [] sample_options (linear_env (Some empty_store)) = Inr (sized_response 90)"
proof -
  have api: "\<And>kv. IMAGES (linear_env (Some kv)) = Some linear_service"
    and kv: "\<And>kv. BRANDING_ASSETS (linear_env (Some kv)) = Some kv"
    by (simp_all add: linear_env_def)
  have wm: "watermark sample_options = Some True"
    by (simp add: sample_options_def)
  have inp: "img_input linear_service [] = Inr 0"
    by (simp add: linear_service_def)
  have rs: "resize_step linear_service sample_options 0 = Inr 90"
    by (simp add: resize_step_def transform_options_of_def truthy_only_def sample_options_def
          linear_service_def)
  have out: "\<forall>p. img_respond linear_service p (output_options_of sample_options)
                  = Resolves (sized_response p)"
    by (simp add: linear_service_def)
  have d1: "draw_logo linear_service failing_store ''bbff-logo.png'' bbff_overlay 90
            = Inl (Thrown ''Error: KV unavailable'')"
    by (simp add: draw_logo_def failing_store_def)
  have d2: "draw_logo linear_service one_logo_store ''bbff-logo.png'' bbff_overlay 90 = Inr 90"
    by (simp add: draw_logo_def one_logo_store_def)
  have d3: "draw_logo linear_service one_logo_store ''hmb-logo.png'' hmb_overlay 90
            = Inl (Thrown ''Error: draw failed'')"
    by (simp add: draw_logo_def one_logo_store_def linear_service_def)
  have e: "empty_store ''bbff-logo.png'' = Inr None \<and> empty_store ''hmb-logo.png'' = Inr None"
    by (simp add: empty_store_def)
  have d4: "\<And>name opts. draw_logo linear_service empty_store name opts 90 = Inr 90"
    by (simp add: draw_logo_def empty_store_def)
  show ?thesis
    using processImage_survives_watermark_failure [OF api kv wm inp rs out, of failing_store]
      processImage_survives_watermark_failure [OF api kv wm inp rs out, of one_logo_store]
      processImage_survives_watermark_failure [OF api kv wm inp rs out, of empty_store]
      api kv wm inp rs d1 d2 d3 d4 e
    by (simp add: Let_def)
qed

section \<open>Properties of the upload handler\<close>

lemma filter_checked:
  "filter (\<lambda>(f, v). P v) (map (\<lambda>f. (f, check f)) files)
   = map (\<lambda>f. (f, check f)) (filter (\<lambda>f. P (check f)) files)"
  by (induction files) simp_all

lemma concat_map_if:
  "concat (map (\<lambda>x. if P x then [m x] else []) xs) = map m (filter P xs)"
  by (induction xs) simp_all

lemma zip_map_zip:
  "length ns = length fs \<Longrightarrow>
     map h (zip (map g (zip ns fs)) fs) = map (\<lambda>(i, f). h (g (i, f), f)) (zip ns fs)"
  by (induction ns fs rule: list_induct2) simp_all

lemma process_uploads_invalid:
  assumes "filter (\<lambda>f. \<not> valid (validateFile (formatBytes world) f (upload_constraints env))) files \<noteq> []"
  shows "process_uploads req put env world files
         = (createValidationError
              (''Invalid files: ''
               @ join '', ''
                   (map (\<lambda>f. file_name f @ '': ''
                              @ (case error (validateFile (formatBytes world) f (upload_constraints env)) of
                                   None \<Rightarrow> ''undefined'' | Some e \<Rightarrow> e))
                      (filter (\<lambda>f. \<not> valid (validateFile (formatBytes world) f (upload_constraints env))) files)))
              (Some ''photos''), [])"
  using assms
  by (simp add: process_uploads_def Let_def filter_checked invalid_files_message_def comp_def)

lemma process_uploads_valid:
  assumes "filter (\<lambda>f. \<not> valid (validateFile (formatBytes world) f (upload_constraints env))) files = []"
  shows "process_uploads req put env world files
         = (let tries = zip [0..<length files] files;
                failed = map (upload_failure put world) (filter (\<lambda>(i, f). put (upload_key world i f) f \<noteq> None) tries);
                stored = map (upload_success world) (filter (\<lambda>(i, f). put (upload_key world i f) f = None) tries)
            in (\<lparr> status = (if failed = [] then 201 else 206),
                  headers = [(''Content-Type'', ''application/json''),
                             (''Access-Control-Allow-Origin'', str_or (req_header req ''Origin'') ''*'')],
                  body = UploadBody (failed = [])
                           (if stored \<noteq> [] then Some stored else None)
                           (if failed \<noteq> [] then Some failed else None) \<rparr>,
                map (\<lambda>(i, f). BucketPut (upload_key world i f) (file_name f)) tries
                @ map (\<lambda>u. LogError (''Upload failed for '' @ fu_filename u)) failed
                @ (if stored \<noteq> [] then [LogAnalytics ''upload''] else [])))"
proof -
  let ?check = "\<lambda>f. validateFile (formatBytes world) f (upload_constraints env)"
  let ?vr = "map (\<lambda>f. (f, ?check f)) files"
  let ?tries = "zip [0..<length files] files"
  have allvalid: "filter (\<lambda>f. valid (?check f)) files = files"
    using assms by (simp add: filter_empty_conv)
  have inv: "filter (\<lambda>(f, v). \<not> valid v) ?vr = []"
    using assms by (simp add: filter_checked)
  have val: "map fst (filter (\<lambda>(f, v). valid v) ?vr) = files"
    using allvalid by (simp add: filter_checked comp_def)
  have fsts: "map fst ?vr = files"
    by (simp add: comp_def)
  have fail: "concat (map (\<lambda>(r, f). case r of Inr m \<Rightarrow> []
                 | Inl e \<Rightarrow> [\<lparr> fu_filename = file_name f, fu_error = (if truthy_str e then e else ''Upload failed'') \<rparr>])
               (zip (map (\<lambda>(i, f). uploadFile put world i f) ?tries) files))
             = map (upload_failure put world) (filter (\<lambda>(i, f). put (upload_key world i f) f \<noteq> None) ?tries)"
  proof -
    have "map (\<lambda>(r, f). case r of Inr m \<Rightarrow> []
                 | Inl e \<Rightarrow> [\<lparr> fu_filename = file_name f, fu_error = (if truthy_str e then e else ''Upload failed'') \<rparr>])
               (zip (map (\<lambda>(i, f). uploadFile put world i f) ?tries) files)
          = map (\<lambda>t. if (\<lambda>(i, f). put (upload_key world i f) f \<noteq> None) t then [upload_failure put world t] else []) ?tries"
      by (subst zip_map_zip) (auto simp: uploadFile_def upload_failure_def truthy_str_def Let_def split: option.splits)
    then show ?thesis
      by (simp only: concat_map_if)
  qed
  have succ: "concat (map (\<lambda>(r, f). case r of Inr m \<Rightarrow> [m] | Inl e \<Rightarrow> [])
               (zip (map (\<lambda>(i, f). uploadFile put world i f) ?tries) files))
             = map (upload_success world) (filter (\<lambda>(i, f). put (upload_key world i f) f = None) ?tries)"
  proof -
    have "map (\<lambda>(r, f). case r of Inr m \<Rightarrow> [m] | Inl e \<Rightarrow> [])
               (zip (map (\<lambda>(i, f). uploadFile put world i f) ?tries) files)
          = map (\<lambda>t. if (\<lambda>(i, f). put (upload_key world i f) f = None) t then [upload_success world t] else []) ?tries"
      by (subst zip_map_zip) (auto simp: uploadFile_def upload_success_def Let_def split: option.splits)
    then show ?thesis
      by (simp only: concat_map_if)
  qed
  show ?thesis
    unfolding process_uploads_def Let_def inv val fsts fail succ by simp
qed


lemma onRequestPost_reaches_validation:
  assumes "handleCORS req [''*''] = None"
    and "PHOTOS_BUCKET env = Some put"
    and "checkRateLimit req env (now_ms world) counts = (None, counts')"
    and "validateAuthentication req env = None"
    and "req_form req = Inr files"
    and "files \<noteq> []"
  shows "onRequestPost req env world counts = (process_uploads req put env world files, counts')"
  using assms by (simp add: onRequestPost_def)

text \<open>
  Claim C2. For every upload batch that reaches validation (the request is not a preflight,
  the bucket is bound, the rate limit and the authentication pass, and the form holds at
  least one file): if some file fails \<open>validateFile\<close>, the response is 400
  \<open>VALIDATION_FAILED\<close>, its message lists every failing file name with its reason, and no
  call of \<open>put\<close> is made; if every file passes, \<open>put\<close> is called once per file, the status
  is 201 when no call throws and 206 otherwise, and the body reports every file whose call
  threw as a pair of its file name and error message (and every stored file by its metadata).
\<close>

theorem upload_batch_validation_then_storage:
  assumes "handleCORS req [''*''] = None"
    and "PHOTOS_BUCKET env = Some put"
    and "checkRateLimit req env (now_ms world) counts = (None, counts')"
    and "validateAuthentication req env = None"
    and "req_form req = Inr files"
    and "files \<noteq> []"
  shows "(let check = (\<lambda>f. validateFile (formatBytes world) f (upload_constraints env));
              bad = filter (\<lambda>f. \<not> valid (check f)) files;
              out = fst (onRequestPost req env world counts);
              tries = zip [0..<length files] files;
              failed = map (upload_failure put world)
                         (filter (\<lambda>(i, f). put (upload_key world i f) f \<noteq> None) tries);
              stored = map (upload_success world)
                         (filter (\<lambda>(i, f). put (upload_key world i f) f = None) tries)
          in (bad \<noteq> [] \<longrightarrow>
                status (fst out) = 400
                \<and> body (fst out)
                    = ErrorBody (''Invalid files: ''
                                 @ join '', '' (map (\<lambda>f. file_name f @ '': ''
                                                          @ (case error (check f) of
                                                               None \<Rightarrow> ''undefined'' | Some e \<Rightarrow> e)) bad))
                        ''VALIDATION_FAILED'' 400 [(''field'', ''photos'')]
                \<and> snd out = [])
             \<and> (bad = [] \<longrightarrow>
                  status (fst out) = (if failed = [] then 201 else 206)
                  \<and> body (fst out)
                      = UploadBody (failed = [])
                          (if stored \<noteq> [] then Some stored else None)
                          (if failed \<noteq> [] then Some failed else None)
                  \<and> filter is_store_write (snd out)
                      = map (\<lambda>(i, f). BucketPut (upload_key world i f) (file_name f)) tries))"
proof -
  let ?check = "\<lambda>f. validateFile (formatBytes world) f (upload_constraints env)"
  let ?bad = "filter (\<lambda>f. \<not> valid (?check f)) files"
  have out: "fst (onRequestPost req env world counts) = process_uploads req put env world files"
    using onRequestPost_reaches_validation [OF assms] by simp
  have puts: "\<And>tries. filter is_store_write (map (\<lambda>(i, f). BucketPut (upload_key world i f) (file_name f)) tries)
                     = map (\<lambda>(i, f). BucketPut (upload_key world i f) (file_name f)) tries"
    by (simp add: filter_map comp_def split_beta)
  have logs: "\<And>failed. filter is_store_write (map (\<lambda>u. LogError (''Upload failed for '' @ fu_filename u)) failed) = []"
    by (simp add: filter_map comp_def)
  show ?thesis
  proof (cases "?bad = []")
    case True
    show ?thesis
      unfolding Let_def out process_uploads_valid [OF True]
      using True by (simp add: puts logs)
  next
    case False
    show ?thesis
      unfolding Let_def out process_uploads_invalid [OF False]
      using False by (simp add: createValidationError_def createErrorResponse_def truthy_str_def)
  qed
qed

lemmas upload_checks_eval =
  handleCORS_def post_request_def dev_env_def checkRateLimit_def validateAuthentication_def
  str_or_def truthy_str_def no_counts_def Let_def

theorem upload_batch_validation_then_storage_witness:
  "fst (onRequestPost (post_request [photo_a, notes_txt, photo_w]) (dev_env put_ok) sample_world no_counts)
     = (createValidationError
          ''Invalid files: notes.txt: File type text/plain is not allowed. Allowed types: image/jpeg, image/png, image/webp''
          (Some ''photos''), [])
   \<and> status (fst (fst (onRequestPost (post_request [photo_a, notes_txt, photo_w]) (dev_env put_ok)
                          sample_world no_counts))) = 400
   \<and> status (fst (fst (onRequestPost (post_request [photo_a, photo_w]) (dev_env put_ok)
                          sample_world no_counts))) = 201
   \<and> status (fst (fst (onRequestPost (post_request [photo_a, photo_w]) (dev_env (put_failing_for ''w.webp''))
                          sample_world no_counts))) = 206
   \<and> up_errors (body (fst (fst (onRequestPost (post_request [photo_a, photo_w])
                                   (dev_env (put_failing_for ''w.webp'')) sample_world no_counts))))
       = Some [\<lparr> fu_filename = ''w.webp'',
                 fu_error = ''Failed to upload w.webp: Error: R2 upload failed'' \<rparr>]"
proof -
  let ?mixed = "post_request [photo_a, notes_txt, photo_w]"
  let ?good = "post_request [photo_a, photo_w]"
  let ?counts = "no_counts(''unknown'' \<mapsto> (Suc 0, now_ms sample_world + 60 * 60 * 1000))"
  have g1: "handleCORS (post_request fs) [''*''] = None"
    and g3: "checkRateLimit (post_request fs) (dev_env put) (now_ms sample_world) no_counts = (None, ?counts)"
    and g4: "validateAuthentication (post_request fs) (dev_env put) = None"
    and g5: "req_form (post_request fs) = Inr fs"
    and g2: "PHOTOS_BUCKET (dev_env put) = Some put" for fs put
    by (simp_all add: upload_checks_eval parseInt_eval)
  have "length (filter (\<lambda>f. \<not> valid (validateFile (formatBytes sample_world) f (upload_constraints (dev_env put))))
               [photo_a, notes_txt, photo_w]) = 1" for put
    by code_simp
  then have bad: "filter (\<lambda>f. \<not> valid (validateFile (formatBytes sample_world) f (upload_constraints (dev_env put))))
               [photo_a, notes_txt, photo_w] \<noteq> []" for put
    by (metis length_0_conv zero_neq_one)
  have "length (filter (\<lambda>f. \<not> valid (validateFile (formatBytes sample_world) f (upload_constraints (dev_env put))))
               [photo_a, photo_w]) = 0" for put
    by code_simp
  then have good: "filter (\<lambda>f. \<not> valid (validateFile (formatBytes sample_world) f (upload_constraints (dev_env put))))
               [photo_a, photo_w] = []" for put
    by (simp only: length_0_conv)
  have ev: "fst (onRequestPost ?mixed (dev_env put_ok) sample_world no_counts)
            = (createValidationError
                 ''Invalid files: notes.txt: File type text/plain is not allowed. Allowed types: image/jpeg, image/png, image/webp''
                 (Some ''photos''), [])"
    by code_simp
  have f1: "map (upload_failure put_ok sample_world)
              (filter (\<lambda>(i, f). put_ok (upload_key sample_world i f) f \<noteq> None) (zip [0..<length [photo_a, photo_w]] [photo_a, photo_w])) = []"
    by code_simp
  have f2: "map (upload_failure (put_failing_for ''w.webp'') sample_world)
              (filter (\<lambda>(i, f). put_failing_for ''w.webp'' (upload_key sample_world i f) f \<noteq> None)
                 (zip [0..<length [photo_a, photo_w]] [photo_a, photo_w]))
            = [\<lparr> fu_filename = ''w.webp'', fu_error = ''Failed to upload w.webp: Error: R2 upload failed'' \<rparr>]"
    by code_simp
  have ne: "[photo_a, notes_txt, photo_w] \<noteq> []" "[photo_a, photo_w] \<noteq> []"
    by simp_all
  note mixed = upload_batch_validation_then_storage
      [where req = ?mixed and env = "dev_env put_ok" and put = put_ok and world = sample_world
         and counts = no_counts and counts' = ?counts and files = "[photo_a, notes_txt, photo_w]",
       OF g1 g2 g3 g4 g5 ne(1), unfolded Let_def]
  note stored = upload_batch_validation_then_storage
      [where req = ?good and env = "dev_env put_ok" and put = put_ok and world = sample_world
         and counts = no_counts and counts' = ?counts and files = "[photo_a, photo_w]",
       OF g1 g2 g3 g4 g5 ne(2), unfolded Let_def]
  note partial = upload_batch_validation_then_storage
      [where req = ?good and env = "dev_env (put_failing_for ''w.webp'')" and put = "put_failing_for ''w.webp''"
         and world = sample_world and counts = no_counts and counts' = ?counts and files = "[photo_a, photo_w]",
       OF g1 g2 g3 g4 g5 ne(2), unfolded Let_def]
  have t1: "status (fst (fst (onRequestPost ?mixed (dev_env put_ok) sample_world no_counts))) = 400"
    by (rule mixed [THEN conjunct1, THEN mp, OF bad, THEN conjunct1])
  have t2: "status (fst (fst (onRequestPost ?good (dev_env put_ok) sample_world no_counts))) = 201"
    using stored [THEN conjunct2, THEN mp, OF good, THEN conjunct1]
    by (simp only: f1) simp
  have t3: "status (fst (fst (onRequestPost ?good (dev_env (put_failing_for ''w.webp'')) sample_world no_counts))) = 206"
    using partial [THEN conjunct2, THEN mp, OF good, THEN conjunct1]
    by (simp only: f2) simp
  have t4: "up_errors (body (fst (fst (onRequestPost ?good (dev_env (put_failing_for ''w.webp'')) sample_world no_counts))))
            = Some [\<lparr> fu_filename = ''w.webp'', fu_error = ''Failed to upload w.webp: Error: R2 upload failed'' \<rparr>]"
    using partial [THEN conjunct2, THEN mp, OF good, THEN conjunct2, THEN conjunct1]
    by (simp only: f2) simp
  from ev t1 t2 t3 t4 show ?thesis
    by (intro conjI)
qed

lemma validateFile_ignores_maxFiles:
  "validateFile fmt f (c \<lparr> maxFiles := m \<rparr>) = validateFile fmt f c"
  by (simp add: validateFile_def)

lemma validateFiles_too_many:
  assumes "js_gt (Num (int (length files))) (maxFiles c)"
  shows "list_all (\<lambda>(f, v). \<not> valid v
                     \<and> error v = Some (''Too many files selected. Maximum allowed: '' @ num_to_string (maxFiles c)))
           (validateFiles fmt files c)"
  using assms by (simp add: validateFiles_def list_all_iff)

text \<open>
  Claim C10. The upload handler has no cap on the number of files: for every batch that
  reaches validation and whose files each pass \<open>validateFile\<close>, whatever its length, the
  handler calls \<open>put\<close> once for every file and answers 201 or 206, never with a rejection
  of the batch. \<open>validateFile\<close> does not read \<open>maxFiles\<close>; only \<open>validateFiles\<close>, which the
  handler does not call, rejects a batch of more than \<open>maxFiles\<close> files (every entry marked
  with the too-many-files message).
\<close>

theorem upload_has_no_file_count_cap:
  assumes "handleCORS req [''*''] = None"
    and "PHOTOS_BUCKET env = Some put"
    and "checkRateLimit req env (now_ms world) counts = (None, counts')"
    and "validateAuthentication req env = None"
    and "req_form req = Inr files"
    and "files \<noteq> []"
    and "list_all (\<lambda>f. valid (validateFile (formatBytes world) f (upload_constraints env))) files"
  shows "(status (fst (fst (onRequestPost req env world counts))) = 201
          \<or> status (fst (fst (onRequestPost req env world counts))) = 206)
         \<and> filter is_store_write (snd (fst (onRequestPost req env world counts)))
             = map (\<lambda>(i, f). BucketPut (upload_key world i f) (file_name f)) (zip [0..<length files] files)
         \<and> length (filter is_store_write (snd (fst (onRequestPost req env world counts)))) = length files
         \<and> validateFile (formatBytes world) f (upload_constraints env \<lparr> maxFiles := m \<rparr>)
             = validateFile (formatBytes world) f (upload_constraints env)
         \<and> (js_gt (Num (int (length files))) (maxFiles (upload_constraints env)) \<longrightarrow>
              list_all (\<lambda>(f, v). \<not> valid v \<and> error v = Some ''Too many files selected. Maximum allowed: 10'')
                (validateFiles (formatBytes world) files (upload_constraints env)))"
proof -
  have nobad: "filter (\<lambda>f. \<not> valid (validateFile (formatBytes world) f (upload_constraints env))) files = []"
    using assms(7) by (simp add: filter_empty_conv list_all_iff)
  have out: "fst (onRequestPost req env world counts) = process_uploads req put env world files"
    using onRequestPost_reaches_validation [OF assms(1-6)] by simp
  have puts: "\<And>tries. filter is_store_write (map (\<lambda>(i, f). BucketPut (upload_key world i f) (file_name f)) tries)
                     = map (\<lambda>(i, f). BucketPut (upload_key world i f) (file_name f)) tries"
    by (simp add: filter_map comp_def split_beta)
  have logs: "\<And>failed. filter is_store_write (map (\<lambda>u. LogError (''Upload failed for '' @ fu_filename u)) failed) = []"
    by (simp add: filter_map comp_def)
  have run: "(status (fst (fst (onRequestPost req env world counts))) = 201
          \<or> status (fst (fst (onRequestPost req env world counts))) = 206)
         \<and> filter is_store_write (snd (fst (onRequestPost req env world counts)))
             = map (\<lambda>(i, f). BucketPut (upload_key world i f) (file_name f)) (zip [0..<length files] files)"
    unfolding out process_uploads_valid [OF nobad] Let_def by (simp add: puts logs)
  then have count: "length (filter is_store_write (snd (fst (onRequestPost req env world counts)))) = length files"
    by simp
  have ten: "num_to_string (maxFiles (upload_constraints env)) = ''10''"
    by (simp add: upload_constraints_def digits_of.simps digit_char_def)
  have cap: "js_gt (Num (int (length files))) (maxFiles (upload_constraints env)) \<longrightarrow>
              list_all (\<lambda>(f, v). \<not> valid v \<and> error v = Some ''Too many files selected. Maximum allowed: 10'')
                (validateFiles (formatBytes world) files (upload_constraints env))"
    using validateFiles_too_many [of files "upload_constraints env" "formatBytes world"] by (simp add: ten)
  from run count cap show ?thesis
    by (simp add: validateFile_ignores_maxFiles)
qed

theorem upload_has_no_file_count_cap_witness:
  "length eleven_photos = 11
   \<and> list_all (\<lambda>f. valid (validateFile (formatBytes sample_world) f (upload_constraints (dev_env put_ok))))
       eleven_photos
   \<and> status (fst (fst (onRequestPost (post_request eleven_photos) (dev_env put_ok) sample_world no_counts))) = 201
   \<and> length (filter is_store_write
               (snd (fst (onRequestPost (post_request eleven_photos) (dev_env put_ok) sample_world no_counts))))
       = 11
   \<and> js_gt (Num (int (length eleven_photos))) (maxFiles (upload_constraints (dev_env put_ok)))
   \<and> list_all (\<lambda>(f, v). \<not> valid v \<and> error v = Some ''Too many files selected. Maximum allowed: 10'')
       (validateFiles (formatBytes sample_world) eleven_photos (upload_constraints (dev_env put_ok)))"
proof -
  let ?req = "post_request eleven_photos"
  let ?counts = "no_counts(''unknown'' \<mapsto> (Suc 0, now_ms sample_world + 60 * 60 * 1000))"
  have g1: "handleCORS ?req [''*''] = None"
    and g2: "PHOTOS_BUCKET (dev_env put_ok) = Some put_ok"
    and g3: "checkRateLimit ?req (dev_env put_ok) (now_ms sample_world) no_counts = (None, ?counts)"
    and g4: "validateAuthentication ?req (dev_env put_ok) = None"
    and g5: "req_form ?req = Inr eleven_photos"
    by (simp_all add: upload_checks_eval parseInt_eval)
  have len: "length eleven_photos = 11"
    by (simp add: eleven_photos_def)
  then have g6: "eleven_photos \<noteq> []"
    by auto
  have ok: "list_all (\<lambda>f. valid (validateFile (formatBytes sample_world) f (upload_constraints (dev_env put_ok))))
              eleven_photos"
    by code_simp
  have over: "js_gt (Num (int (length eleven_photos))) (maxFiles (upload_constraints (dev_env put_ok)))"
    by (simp add: len upload_constraints_def)
  have created: "status (fst (fst (onRequestPost ?req (dev_env put_ok) sample_world no_counts))) = 201"
    by code_simp
  note inst = upload_has_no_file_count_cap
      [where req = ?req and env = "dev_env put_ok" and put = put_ok and world = sample_world
         and counts = no_counts and counts' = ?counts and files = eleven_photos,
       OF g1 g2 g3 g4 g5 g6 ok]
  from inst len created ok over show ?thesis
    by simp
qed

section \<open>Properties of the image serving handler\<close>

lemma validate_out_of_range:
  assumes "out_of_range 1 4000 (width options) \<or> out_of_range 1 4000 (height options)
           \<or> out_of_range 1 100 (quality options)"
  shows "validateProcessingOptions options = Some (bound_message options)"
proof -
  have w: "(case width options of None \<Rightarrow> False | Some w \<Rightarrow> js_lt w (Num 1) \<or> js_gt w (Num 4000))
           = out_of_range 1 4000 (width options)"
    by (auto simp: out_of_range_def split: option.splits jsnum.splits)
  have h: "(case height options of None \<Rightarrow> False | Some h \<Rightarrow> js_lt h (Num 1) \<or> js_gt h (Num 4000))
           = out_of_range 1 4000 (height options)"
    by (auto simp: out_of_range_def split: option.splits jsnum.splits)
  have q: "(case quality options of None \<Rightarrow> False | Some q \<Rightarrow> js_lt q (Num 1) \<or> js_gt q (Num 100))
           = out_of_range 1 100 (quality options)"
    by (auto simp: out_of_range_def split: option.splits jsnum.splits)
  show ?thesis
    unfolding validateProcessingOptions_def w h q bound_message_def using assms by auto
qed

text \<open>
  An option that is a number is checked as intended. For every \<open>GET\<close> request that reaches
  option parsing (not a preflight, the bucket bound, a non-empty key) and whose parsed
  options contain a number below 1 or above 4000 as width or height, or a number below 1
  or above 100 as quality, the handler answers 400 \<open>VALIDATION_FAILED\<close> with the message
  of the first violated bound (width, then height, then quality) and makes no call at
  all: not to the edge cache, the object store, the adapter or the logs.
\<close>

lemma numeric_option_out_of_bound_rejected:
  assumes "handleCORS req [''*''] = None"
    and "ie_bucket env = Some get"
    and "req_key req = Some imageKey"
    and "imageKey \<noteq> []"
    and "out_of_range 1 4000 (width (parse_processing_options req))
         \<or> out_of_range 1 4000 (height (parse_processing_options req))
         \<or> out_of_range 1 100 (quality (parse_processing_options req))"
  shows "onRequestGet_image req env
           = (createErrorResponse (bound_message (parse_processing_options req))
                (Some ''VALIDATION_FAILED'') (Some 400) [], [])
         \<and> status (fst (onRequestGet_image req env)) = 400
         \<and> snd (onRequestGet_image req env) = []"
proof -
  have "validateProcessingOptions (parse_processing_options req)
        = Some (bound_message (parse_processing_options req))"
    using assms(5) by (rule validate_out_of_range)
  then have "onRequestGet_image req env
           = (createErrorResponse (bound_message (parse_processing_options req))
                (Some ''VALIDATION_FAILED'') (Some 400) [], [])"
    using assms(1-4) by (simp add: onRequestGet_image_def truthy_str_def Let_def)
  then show ?thesis
    by (simp add: createErrorResponse_def)
qed

text \<open>The requests \<open>?w=5000\<close> and \<open>?q=0\<close> are answered so.\<close>

lemma numeric_option_out_of_bound_examples:
  "out_of_range 1 4000 (width (parse_processing_options (get_request (Some ''a.jpg'') [(''w'', ''5000'')])))
   \<and> onRequestGet_image (get_request (Some ''a.jpg'') [(''w'', ''5000'')]) serving_env
       = (createErrorResponse ''Width must be between 1 and 4000 pixels'' (Some ''VALIDATION_FAILED'') (Some 400) [],
          [])
   \<and> out_of_range 1 100 (quality (parse_processing_options (get_request (Some ''a.jpg'') [(''q'', ''0'')])))
   \<and> onRequestGet_image (get_request (Some ''a.jpg'') [(''q'', ''0'')]) serving_env
       = (createErrorResponse ''Quality must be between 1 and 100'' (Some ''VALIDATION_FAILED'') (Some 400) [],
          [])"
proof -
  let ?w = "get_request (Some ''a.jpg'') [(''w'', ''5000'')]"
  let ?q = "get_request (Some ''a.jpg'') [(''q'', ''0'')]"
  have g1: "handleCORS (get_request k qs) [''*''] = None"
    and g3: "req_key (get_request (Some ''a.jpg'') qs) = Some ''a.jpg''" for k qs
    by (simp_all add: handleCORS_def get_request_def)
  have g2: "ie_bucket serving_env = Some one_photo_bucket"
    by (simp add: serving_env_def)
  have g4: "''a.jpg'' \<noteq> []"
    by simp
  have wbad: "out_of_range 1 4000 (width (parse_processing_options ?w))"
    and wmsg: "bound_message (parse_processing_options ?w) = ''Width must be between 1 and 4000 pixels''"
    by code_simp+
  have qbad: "out_of_range 1 100 (quality (parse_processing_options ?q))"
    and qmsg: "bound_message (parse_processing_options ?q) = ''Quality must be between 1 and 100''"
    by code_simp+
  note width_case = numeric_option_out_of_bound_rejected
      [where req = ?w and env = serving_env and get = one_photo_bucket and imageKey = "''a.jpg''",
       OF g1 g2 g3 g4 disjI1, OF wbad, THEN conjunct1]
  note quality_case = numeric_option_out_of_bound_rejected
      [where req = ?q and env = serving_env and get = one_photo_bucket and imageKey = "''a.jpg''",
       OF g1 g2 g3 g4 disjI2, OF disjI2, OF qbad, THEN conjunct1]
  from width_case [unfolded wmsg] quality_case [unfolded qmsg] wbad qbad show ?thesis
    by (intro conjI)
qed

text \<open>
  A key with a line feed inside is no legal value of the header \<open>X-Original-Key\<close>: the
  object is read and processed, the constructor of the response throws, and the handler
  answers 500 \<open>Failed to serve image\<close>. The key \<open>a.jpg\<close> is a legal value.
\<close>

lemma key_with_line_feed_fails_after_processing:
  "\<not> legal_header_value (''25thAnniversary/a'' @ [CHR 0x0A] @ ''b.jpg'')
   \<and> legal_header_value ''25thAnniversary/a.jpg''
   \<and> onRequestGet_image (get_request (Some (''a'' @ [CHR 0x0A] @ ''b.jpg'')) [])
         (serving_env \<lparr> ie_bucket := Some (\<lambda>k. Inr (Some jpeg_content)) \<rparr>)
       = (createErrorResponse ''Failed to serve image'' None None [],
          [CacheMatch (cache_url (''25thAnniversary/a'' @ [CHR 0x0A] @ ''b.jpg'')
             (parse_processing_options (get_request (Some (''a'' @ [CHR 0x0A] @ ''b.jpg'')) []))),
           BucketGet (''25thAnniversary/a'' @ [CHR 0x0A] @ ''b.jpg''),
           AdapterCall (''25thAnniversary/a'' @ [CHR 0x0A] @ ''b.jpg''),
           LogError ''TypeError: Invalid header value''])"
  by code_simp

text \<open>
  Claim C3. The specification requires that every \<open>GET\<close> image-serving request whose
  parsed options contain a width outside \<open>[1, 4000]\<close> is answered 400
  \<open>VALIDATION_FAILED\<close> with no call to the object store or the adapter. The handler does
  not do so for the request \<open>GET /api/images/a.jpg?w=abc\<close>: the parameter parses to the
  width \<open>NaN\<close>, which is set and not within \<open>[1, 4000]\<close>; the range check of
  \<open>validateProcessingOptions\<close>, \<open>width < 1 || width > 4000\<close>, is false for \<open>NaN\<close> and
  reports the options as valid; the handler then looks in the edge cache, reads the
  object store, calls the adapter and answers 200.
\<close>

theorem nan_width_reaches_store_and_adapter:
  "width (parse_processing_options (get_request (Some ''a.jpg'') [(''w'', ''abc'')])) = Some NaN
   \<and> \<not> (js_ge NaN (Num 1) \<and> js_le NaN (Num 4000))
   \<and> validateProcessingOptions (parse_processing_options (get_request (Some ''a.jpg'') [(''w'', ''abc'')])) = None
   \<and> status (fst (onRequestGet_image (get_request (Some ''a.jpg'') [(''w'', ''abc'')]) serving_env)) = 200
   \<and> BucketGet ''25thAnniversary/a.jpg''
       \<in> set (snd (onRequestGet_image (get_request (Some ''a.jpg'') [(''w'', ''abc'')]) serving_env))
   \<and> AdapterCall ''25thAnniversary/a.jpg''
       \<in> set (snd (onRequestGet_image (get_request (Some ''a.jpg'') [(''w'', ''abc'')]) serving_env))"
  by code_simp

end
